theory Spec2Isabelle
  imports Complex_Main
begin

section \<open>Data model: a frame of typed, nullable columns\<close>

text \<open>
  The program of \<^verbatim>\<open>data_cleaning.py\<close> works on a pandas frame. A frame is an ordered
  list of labelled columns; a column is one of the four kinds of the data model:
  text (an object column of \<^verbatim>\<open>str\<close> cells), \<^verbatim>\<open>float64\<close>, the nullable \<^verbatim>\<open>Int64\<close> and
  \<^verbatim>\<open>bool\<close>. A null cell (\<^verbatim>\<open>NaN\<close>, \<^verbatim>\<open>pd.NA\<close>) is \<open>None\<close>. Text is a list of 8-bit
  characters and the case conversions and character classes are the ASCII ones: they are
  Python's on ASCII text (\<open>is_ascii\<close> below), and a statement about the text that a
  stage writes is made for ASCII cells. A
  \<^verbatim>\<open>float64\<close> cell is modelled by the real number it denotes: rounding and the
  infinities are left out, except where the rounding of an integer decides whether the
  cast to \<^verbatim>\<open>Int64\<close> raises.

  The labels of a \<open>table\<close> are text. A frame whose column index is not text is a
  \<open>frame\<close> of stage 1 below, the only stage that can be given one.

  Errors are values. \<open>NotModelled\<close> marks the border of the model: the run has left
  the four column kinds (a label shared by several columns selects a frame instead of a
  series; filling a numeric column with text builds a mixed object column). No statement
  below describes the result of such a run. The library calls are read as pandas 2
  performs them.
\<close>

datatype pd_error = KeyError | AttributeError | TypeError | NotModelled

datatype column =
    TextCol "string option list"
  | FloatCol "real option list"
  | IntCol "int option list"
  | BoolCol "bool list"

type_synonym table = "(string \<times> column) list"

fun col_length :: "column \<Rightarrow> nat" where
  "col_length (TextCol xs) = length xs"
| "col_length (FloatCol xs) = length xs"
| "col_length (IntCol xs) = length xs"
| "col_length (BoolCol xs) = length xs"

definition and_then :: "pd_error + 'a \<Rightarrow> ('a \<Rightarrow> pd_error + 'b) \<Rightarrow> pd_error + 'b" where
  "and_then r f = (case r of Inl e \<Rightarrow> Inl e | Inr x \<Rightarrow> f x)"

text \<open>A run raises when it ends in one of the exceptions of Python.\<close>

definition raises :: "pd_error + 'a \<Rightarrow> bool" where
  "raises r = (r = Inl KeyError \<or> r = Inl AttributeError \<or> r = Inl TypeError)"

subsection \<open>Column access\<close>

definition columns_named :: "table \<Rightarrow> string \<Rightarrow> column list" where
  "columns_named df name = map snd (filter (\<lambda>p. fst p = name) df)"

text \<open>
  \<^verbatim>\<open>df[name]\<close>: a missing label raises \<^verbatim>\<open>KeyError\<close>; a label of exactly one column
  selects that column.
\<close>

definition getitem :: "table \<Rightarrow> string \<Rightarrow> pd_error + column" where
  "getitem df name =
     (case columns_named df name of
        [] \<Rightarrow> Inl KeyError
      | [c] \<Rightarrow> Inr c
      | _ \<Rightarrow> Inl NotModelled)"

text \<open>\<^verbatim>\<open>df[name].str\<close>: the accessor exists on text columns only.\<close>

definition str_accessor :: "table \<Rightarrow> string \<Rightarrow> pd_error + string option list" where
  "str_accessor df name =
     (case getitem df name of
        Inl e \<Rightarrow> Inl e
      | Inr (TextCol xs) \<Rightarrow> Inr xs
      | Inr _ \<Rightarrow> Inl AttributeError)"

text \<open>\<^verbatim>\<open>df[name] = col\<close>: replaces the column of that label, or appends a new one.\<close>

definition setitem :: "table \<Rightarrow> string \<Rightarrow> column \<Rightarrow> table" where
  "setitem df name col =
     (if name \<in> fst ` set df
      then map (\<lambda>p. if fst p = name then (name, col) else p) df
      else df @ [(name, col)])"

subsection \<open>Text primitives\<close>

definition lower_table :: "(char \<times> char) list" where
  "lower_table = zip ''ABCDEFGHIJKLMNOPQRSTUVWXYZ'' ''abcdefghijklmnopqrstuvwxyz''"

definition upper_table :: "(char \<times> char) list" where
  "upper_table = zip ''abcdefghijklmnopqrstuvwxyz'' ''ABCDEFGHIJKLMNOPQRSTUVWXYZ''"

definition char_lower :: "char \<Rightarrow> char" where
  "char_lower c = (case map_of lower_table c of Some d \<Rightarrow> d | None \<Rightarrow> c)"

definition char_upper :: "char \<Rightarrow> char" where
  "char_upper c = (case map_of upper_table c of Some d \<Rightarrow> d | None \<Rightarrow> c)"

definition str_lower :: "string \<Rightarrow> string" where
  "str_lower s = map char_lower s"

definition str_upper :: "string \<Rightarrow> string" where
  "str_upper s = map char_upper s"

text \<open>ASCII text: every character has a code below 128.\<close>

definition is_ascii :: "string \<Rightarrow> bool" where
  "is_ascii s = list_all (\<lambda>c. of_char c < (128::nat)) s"

text \<open>\<^verbatim>\<open>s.replace(' ', '_')\<close>\<close>

definition str_replace_space :: "string \<Rightarrow> string" where
  "str_replace_space s = map (\<lambda>c. if c = CHR '' '' then CHR ''_'' else c) s"

definition is_digit :: "char \<Rightarrow> bool" where
  "is_digit c = (c \<in> set ''0123456789'')"

text \<open>The class \<^verbatim>\<open>\w\<close> on ASCII text.\<close>

definition is_word_char :: "char \<Rightarrow> bool" where
  "is_word_char c =
     (c \<in> set ''abcdefghijklmnopqrstuvwxyzABCDEFGHIJKLMNOPQRSTUVWXYZ0123456789_'')"

text \<open>
  \<^verbatim>\<open>Series.str.contains('^[...]', na=False)\<close>: the first character of the cell is in
  the class; a null cell gives \<open>False\<close>.
\<close>

definition starts_with_class :: "string \<Rightarrow> string option \<Rightarrow> bool" where
  "starts_with_class cls x =
     (case x of None \<Rightarrow> False | Some [] \<Rightarrow> False | Some (c # _) \<Rightarrow> c \<in> set cls)"

text \<open>
  \<^verbatim>\<open>re.search(r'\bw\b', s)\<close> for a word \<open>w\<close> that begins and ends with a word
  character: \<open>w\<close> occurs in \<open>s\<close> with no word character right before or right after
  it. The flag is whether the character before the current position is a word
  character.
\<close>

fun search_word :: "string \<Rightarrow> bool \<Rightarrow> string \<Rightarrow> bool" where
  "search_word w prev [] = False"
| "search_word w prev (c # cs) =
     ((\<not> prev \<and> take (length w) (c # cs) = w \<and>
        (case drop (length w) (c # cs) of [] \<Rightarrow> True | d # _ \<Rightarrow> \<not> is_word_char d))
      \<or> search_word w (is_word_char c) cs)"

definition contains_word :: "string \<Rightarrow> string option \<Rightarrow> bool" where
  "contains_word w x = (case x of None \<Rightarrow> False | Some s \<Rightarrow> search_word w False s)"

text \<open>\<^verbatim>\<open>df.loc[mask, name] = v\<close> on one column: the cells under the mask become \<open>v\<close>.\<close>

definition loc_assign :: "(string option \<Rightarrow> bool) \<Rightarrow> string \<Rightarrow> string option list \<Rightarrow> string option list" where
  "loc_assign msk v xs = map (\<lambda>x. if msk x then Some v else x) xs"

text \<open>\<^verbatim>\<open>s.rstrip('%')\<close>: every trailing \<^verbatim>\<open>%\<close> is removed.\<close>

definition str_rstrip :: "char \<Rightarrow> string \<Rightarrow> string" where
  "str_rstrip ch s = rev (dropWhile (\<lambda>c. c = ch) (rev s))"

text \<open>
  \<^verbatim>\<open>Series.str.extract(r'/(\d+)/')\<close> on one cell: the group of the leftmost match.
  At a slash the digits are taken greedily; the match needs at least one digit and a
  slash right after the run.
\<close>

fun str_extract_token :: "string \<Rightarrow> string option" where
  "str_extract_token [] = None"
| "str_extract_token (c # cs) =
     (if c = CHR ''/'' \<and> takeWhile is_digit cs \<noteq> [] \<and>
         (case dropWhile is_digit cs of [] \<Rightarrow> False | d # _ \<Rightarrow> d = CHR ''/'')
      then Some (takeWhile is_digit cs)
      else str_extract_token cs)"

definition digit_val :: "char \<Rightarrow> nat" where
  "digit_val c = (case map_of (zip ''0123456789'' [0, 1, 2, 3, 4, 5, 6, 7, 8, 9]) c of Some d \<Rightarrow> d | None \<Rightarrow> 0)"

definition nat_of_digits :: "string \<Rightarrow> nat" where
  "nat_of_digits s = foldl (\<lambda>acc c. 10 * acc + digit_val c) 0 s"

section \<open>The stages\<close>

subsection \<open>Stage 1: \<^verbatim>\<open>clean_column_names\<close>\<close>

text \<open>\<^verbatim>\<open>df.rename(columns={'st': 'state', 'income': 'customer_income'})\<close> on one label.\<close>

definition rename_label :: "string \<Rightarrow> string" where
  "rename_label n =
     (case map_of [(''st'', ''state''), (''income'', ''customer_income'')] n of
        Some m \<Rightarrow> m
      | None \<Rightarrow> n)"

definition map_labels :: "(string \<Rightarrow> string) \<Rightarrow> table \<Rightarrow> table" where
  "map_labels f df = map (\<lambda>p. (f (fst p), snd p)) df"

text \<open>
  On a frame whose labels are text the accessor \<^verbatim>\<open>df.columns.str\<close> exists, and the three
  lines rewrite the labels one after the other.
\<close>

definition clean_column_names :: "table \<Rightarrow> pd_error + table" where
  "clean_column_names df =
     (let df1 = map_labels str_lower df;
          df2 = map_labels str_replace_space df1;
          df3 = map_labels rename_label df2
      in Inr df3)"

text \<open>
  The column index of a frame need not be text. \<^verbatim>\<open>pd.DataFrame()\<close> and a frame built
  from rows without names have a \<^verbatim>\<open>RangeIndex\<close>, and the labels of a frame may be
  integers; \<^verbatim>\<open>pd.DataFrame()\<close> is \<open>IntegerFrame []\<close>. On such an index the first
  line, \<^verbatim>\<open>df.columns.str\<close>, raises \<^verbatim>\<open>AttributeError\<close> (the accessor is for text
  only) and nothing is renamed. An index that mixes text with other labels is in neither
  case of the type.
\<close>

datatype frame = TextFrame table | IntegerFrame "(int \<times> column) list"

definition clean_column_names_frame :: "frame \<Rightarrow> pd_error + table" where
  "clean_column_names_frame fr =
     (case fr of
        TextFrame df \<Rightarrow> clean_column_names df
      | IntegerFrame cs \<Rightarrow> Inl AttributeError)"

subsection \<open>Stage 2: \<^verbatim>\<open>standardize_gender\<close>\<close>

definition standardize_gender :: "table \<Rightarrow> pd_error + table" where
  "standardize_gender df =
     and_then (str_accessor df ''gender'') (\<lambda>xs.
       let df1 = setitem df ''gender'' (TextCol (loc_assign (starts_with_class ''Ff'') ''F'' xs))
       in and_then (str_accessor df1 ''gender'') (\<lambda>ys.
            Inr (setitem df1 ''gender''
                   (TextCol (loc_assign (starts_with_class ''Mm'') ''M'' ys)))))"

subsection \<open>Stage 3: \<^verbatim>\<open>standardize_state\<close>\<close>

definition state_mapping :: "(string \<times> string) list" where
  "state_mapping =
    [(''AL'', ''ALABAMA''), (''AK'', ''ALASKA''), (''AZ'', ''ARIZONA''), (''AR'', ''ARKANSAS''),
     (''CA'', ''CALIFORNIA''), (''CALI'', ''CALIFORNIA''),
     (''CO'', ''COLORADO''), (''CT'', ''CONNECTICUT''), (''DE'', ''DELAWARE''),
     (''FL'', ''FLORIDA''), (''GA'', ''GEORGIA''),
     (''HI'', ''HAWAII''), (''ID'', ''IDAHO''), (''IL'', ''ILLINOIS''), (''IN'', ''INDIANA''),
     (''IA'', ''IOWA''),
     (''KS'', ''KANSAS''), (''KY'', ''KENTUCKY''), (''LA'', ''LOUISIANA''), (''ME'', ''MAINE''),
     (''MD'', ''MARYLAND''),
     (''MA'', ''MASSACHUSETTS''), (''MI'', ''MICHIGAN''), (''MN'', ''MINNESOTA''),
     (''MS'', ''MISSISSIPPI''), (''MO'', ''MISSOURI''),
     (''MT'', ''MONTANA''), (''NE'', ''NEBRASKA''), (''NV'', ''NEVADA''),
     (''NH'', ''NEW HAMPSHIRE''), (''NJ'', ''NEW JERSEY''),
     (''NM'', ''NEW MEXICO''), (''NY'', ''NEW YORK''), (''NC'', ''NORTH CAROLINA''),
     (''ND'', ''NORTH DAKOTA''), (''OH'', ''OHIO''),
     (''OK'', ''OKLAHOMA''), (''OR'', ''OREGON''), (''PA'', ''PENNSYLVANIA''),
     (''RI'', ''RHODE ISLAND''), (''SC'', ''SOUTH CAROLINA''),
     (''SD'', ''SOUTH DAKOTA''), (''TN'', ''TENNESSEE''), (''TX'', ''TEXAS''), (''UT'', ''UTAH''),
     (''VT'', ''VERMONT''),
     (''VA'', ''VIRGINIA''), (''WA'', ''WASHINGTON''), (''WV'', ''WEST VIRGINIA''),
     (''WI'', ''WISCONSIN''), (''WY'', ''WYOMING'')]"

text \<open>\<^verbatim>\<open>Series.replace(dict)\<close> on one cell: a cell equal to a key becomes its entry.\<close>

definition replace_cell :: "(string \<times> string) list \<Rightarrow> string \<Rightarrow> string" where
  "replace_cell d s = (case map_of d s of Some v \<Rightarrow> v | None \<Rightarrow> s)"

definition standardize_state :: "table \<Rightarrow> pd_error + table" where
  "standardize_state df =
     and_then (str_accessor df ''state'') (\<lambda>xs.
       Inr (setitem df ''state''
              (TextCol (map (map_option (replace_cell state_mapping))
                          (map (map_option str_upper) xs)))))"

subsection \<open>Stage 4: \<^verbatim>\<open>standardize_education\<close>\<close>

definition standardize_education :: "table \<Rightarrow> pd_error + table" where
  "standardize_education df =
     and_then (str_accessor df ''education'') (\<lambda>xs.
       Inr (setitem df ''education''
              (TextCol (loc_assign (starts_with_class ''Bb'') ''Bachelor'' xs))))"

subsection \<open>Stage 5: \<^verbatim>\<open>standardize_vehicle_class\<close>\<close>

definition standardize_vehicle_class :: "table \<Rightarrow> pd_error + table" where
  "standardize_vehicle_class df =
     and_then (str_accessor df ''vehicle_class'') (\<lambda>xs.
       let df1 = setitem df ''vehicle_class''
                   (TextCol (loc_assign (starts_with_class ''Lu'') ''Luxury'' xs))
       in and_then (str_accessor df1 ''vehicle_class'') (\<lambda>ys.
            Inr (setitem df1 ''vehicle_class''
                   (TextCol (loc_assign (contains_word ''Sports'') ''Luxury'' ys)))))"

subsection \<open>Stage 6: \<^verbatim>\<open>clean_and_convert_numerical\<close>\<close>

text \<open>
  \<^verbatim>\<open>pd.to_numeric(col, errors='coerce').astype('float64')\<close>. The reader of one text
  cell as a float is pandas' own and is a parameter \<open>rd\<close> of the stage (\<open>None\<close> is
  \<^verbatim>\<open>NaN\<close>: the text does not parse). In this program the call only ever sees the text
  column that the line before has written.
\<close>

definition to_numeric_float :: "(string \<Rightarrow> real option) \<Rightarrow> column \<Rightarrow> pd_error + column" where
  "to_numeric_float rd c =
     (case c of
        TextCol xs \<Rightarrow> Inr (FloatCol (map (\<lambda>x. case x of None \<Rightarrow> None | Some s \<Rightarrow> rd s) xs))
      | _ \<Rightarrow> Inl NotModelled)"

text \<open>
  The float nearest to a natural number (round to nearest, ties to even, 53 bits).
\<close>

fun bit_length :: "nat \<Rightarrow> nat" where
  "bit_length n = (if n = 0 then 0 else Suc (bit_length (n div 2)))"

definition float64_of_nat :: "nat \<Rightarrow> nat" where
  "float64_of_nat n =
     (if n \<le> 2 ^ 53 then n
      else let e = bit_length n - 53; q = n div 2 ^ e; r = n mod 2 ^ e; h = 2 ^ (e - 1)
           in if h < r \<or> (r = h \<and> odd q) then (q + 1) * 2 ^ e else q * 2 ^ e)"

definition INT64_MAX :: nat where
  "INT64_MAX = 2 ^ 63 - 1"

text \<open>
  \<^verbatim>\<open>pd.to_numeric(col, errors='coerce').astype('Int64')\<close> on a column of digit tokens
  and nulls, as \<^verbatim>\<open>str.extract\<close> leaves it. A token above the \<^verbatim>\<open>int64\<close> range makes
  \<^verbatim>\<open>to_numeric\<close> answer with \<^verbatim>\<open>uint64\<close> or \<^verbatim>\<open>float64\<close>, and the cast raises. With
  all tokens in range and no null the answer is \<^verbatim>\<open>int64\<close> and the cast is exact. With
  a null the answer is \<^verbatim>\<open>float64\<close>: every token goes through its nearest float, and
  the cast raises when that float is \<open>2 ^ 63\<close>.
\<close>

definition to_numeric_Int64 :: "column \<Rightarrow> pd_error + column" where
  "to_numeric_Int64 c =
     (case c of
        TextCol xs \<Rightarrow>
          (let vs = map (map_option nat_of_digits) xs in
           if list_ex (\<lambda>v. case v of None \<Rightarrow> False | Some n \<Rightarrow> INT64_MAX < n) vs
           then Inl TypeError
           else if list_all (\<lambda>v. v \<noteq> None) vs
           then Inr (IntCol (map (map_option int) vs))
           else let fs = map (map_option float64_of_nat) vs in
                if list_ex (\<lambda>v. case v of None \<Rightarrow> False | Some n \<Rightarrow> INT64_MAX < n) fs
                then Inl TypeError
                else Inr (IntCol (map (map_option int) fs)))
      | _ \<Rightarrow> Inl NotModelled)"

definition clean_and_convert_numerical :: "(string \<Rightarrow> real option) \<Rightarrow> table \<Rightarrow> pd_error + table" where
  "clean_and_convert_numerical rd df =
     and_then (str_accessor df ''customer_lifetime_value'') (\<lambda>xs.
       let df1 = setitem df ''customer_lifetime_value''
                   (TextCol (map (map_option (str_rstrip CHR ''%'')) xs))
       in and_then (getitem df1 ''customer_lifetime_value'') (\<lambda>c.
          and_then (to_numeric_float rd c) (\<lambda>c'.
            let df2 = setitem df1 ''customer_lifetime_value'' c'
            in and_then (str_accessor df2 ''number_of_open_complaints'') (\<lambda>ys.
                 let df3 = setitem df2 ''number_of_open_complaints''
                             (TextCol (map (\<lambda>y. case y of None \<Rightarrow> None
                                                 | Some s \<Rightarrow> str_extract_token s) ys))
                 in and_then (getitem df3 ''number_of_open_complaints'') (\<lambda>d.
                    and_then (to_numeric_Int64 d) (\<lambda>d'.
                      Inr (setitem df3 ''number_of_open_complaints'' d')))))))"

subsection \<open>Stage 7: \<^verbatim>\<open>handle_missing_values\<close>\<close>

definition categorical_cols :: "string list" where
  "categorical_cols =
     [''customer'', ''state'', ''gender'', ''education'', ''policy_type'', ''vehicle_class'']"

definition numerical_cols :: "string list" where
  "numerical_cols =
     [''total_claim_amount'', ''monthly_premium_auto'', ''customer_income'',
      ''customer_lifetime_value'']"

definition fill_cell :: "'a \<Rightarrow> 'a option \<Rightarrow> 'a option" where
  "fill_cell v x = (case x of None \<Rightarrow> Some v | Some y \<Rightarrow> Some y)"

text \<open>
  \<^verbatim>\<open>col.fillna('Unknown')\<close>. A column with no null is returned as it is. Text cannot be
  stored in \<^verbatim>\<open>Int64\<close>; a \<^verbatim>\<open>float64\<close> column with nulls would become a mixed object
  column.
\<close>

definition fillna_text :: "string \<Rightarrow> column \<Rightarrow> pd_error + column" where
  "fillna_text v c =
     (case c of
        TextCol xs \<Rightarrow> Inr (TextCol (map (fill_cell v) xs))
      | FloatCol xs \<Rightarrow> if list_ex (\<lambda>x. x = None) xs then Inl NotModelled else Inr (FloatCol xs)
      | IntCol xs \<Rightarrow> if list_ex (\<lambda>x. x = None) xs then Inl TypeError else Inr (IntCol xs)
      | BoolCol bs \<Rightarrow> Inr (BoolCol bs))"

definition non_null :: "'a option list \<Rightarrow> 'a list" where
  "non_null xs = List.map_filter (\<lambda>x. x) xs"

text \<open>
  \<^verbatim>\<open>Series.median()\<close> over the non-null cells: the middle of the sorted cells, the mean
  of the two middle cells when their number is even, and \<^verbatim>\<open>NaN\<close> when there is none.
\<close>

definition median :: "real list \<Rightarrow> real option" where
  "median vs =
     (let ys = sort vs; n = length ys
      in if n = 0 then None
         else if odd n then Some (ys ! (n div 2))
         else Some ((ys ! (n div 2 - 1) + ys ! (n div 2)) / 2))"

text \<open>
  \<^verbatim>\<open>col.fillna(col.median())\<close>. Filling with \<^verbatim>\<open>NaN\<close> changes nothing. An \<^verbatim>\<open>Int64\<close>
  column takes the median only when it is a whole number; the median of text raises.
\<close>

definition fillna_median :: "column \<Rightarrow> pd_error + column" where
  "fillna_median c =
     (case c of
        FloatCol xs \<Rightarrow>
          (case median (non_null xs) of
             None \<Rightarrow> Inr (FloatCol xs)
           | Some m \<Rightarrow> Inr (FloatCol (map (fill_cell m) xs)))
      | IntCol xs \<Rightarrow>
          (if list_all (\<lambda>x. x \<noteq> None) xs then Inr (IntCol xs)
           else case median (map real_of_int (non_null xs)) of
                  None \<Rightarrow> Inr (IntCol xs)
                | Some m \<Rightarrow>
                    if real_of_int \<lfloor>m\<rfloor> = m then Inr (IntCol (map (fill_cell \<lfloor>m\<rfloor>) xs))
                    else Inl TypeError)
      | TextCol xs \<Rightarrow> if list_all (\<lambda>x. x = None) xs then Inr (TextCol xs) else Inl TypeError
      | BoolCol bs \<Rightarrow> Inr (BoolCol bs))"

text \<open>The loop \<^verbatim>\<open>for col in cols: df[col] = f(df[col])\<close>.\<close>

fun fill_columns :: "(column \<Rightarrow> pd_error + column) \<Rightarrow> string list \<Rightarrow> table \<Rightarrow> pd_error + table" where
  "fill_columns f [] df = Inr df"
| "fill_columns f (n # ns) df =
     and_then (getitem df n) (\<lambda>c.
       and_then (f c) (\<lambda>c'. fill_columns f ns (setitem df n c')))"

text \<open>\<^verbatim>\<open>col.isnull()\<close>\<close>

fun isnull :: "column \<Rightarrow> bool list" where
  "isnull (TextCol xs) = map (\<lambda>x. x = None) xs"
| "isnull (FloatCol xs) = map (\<lambda>x. x = None) xs"
| "isnull (IntCol xs) = map (\<lambda>x. x = None) xs"
| "isnull (BoolCol bs) = map (\<lambda>b. False) bs"

text \<open>
  The two loops, then the flag column, written last from the complaints column as the
  loops have left it.
\<close>

definition handle_missing_values :: "table \<Rightarrow> pd_error + table" where
  "handle_missing_values df =
     and_then (fill_columns (fillna_text ''Unknown'') categorical_cols df) (\<lambda>df1.
       and_then (fill_columns fillna_median numerical_cols df1) (\<lambda>df2.
         and_then (getitem df2 ''number_of_open_complaints'') (\<lambda>c.
           if 1 < length (columns_named df2 ''complaints_missing'') then Inl NotModelled
           else Inr (setitem df2 ''complaints_missing'' (BoolCol (isnull c))))))"

subsection \<open>The pipeline: \<^verbatim>\<open>main_cleaning_pipeline\<close>\<close>

definition main_cleaning_pipeline :: "(string \<Rightarrow> real option) \<Rightarrow> table \<Rightarrow> pd_error + table" where
  "main_cleaning_pipeline rd df =
     and_then (clean_column_names df) (\<lambda>df.
     and_then (standardize_gender df) (\<lambda>df.
     and_then (standardize_state df) (\<lambda>df.
     and_then (standardize_education df) (\<lambda>df.
     and_then (standardize_vehicle_class df) (\<lambda>df.
     and_then (clean_and_convert_numerical rd df) (\<lambda>df.
     handle_missing_values df))))))"

text \<open>
  The reader on plain decimal numerals (an optional sign, digits, an optional fraction),
  where it is the number written; it is used to run the stages on examples.
\<close>

definition read_decimal :: "string \<Rightarrow> real option" where
  "read_decimal s =
     (let neg = (take 1 s = ''-'');
          body = (if take 1 s = ''-'' \<or> take 1 s = ''+'' then drop 1 s else s);
          ip = takeWhile is_digit body;
          rest = dropWhile is_digit body;
          sg = (if neg then - 1 else 1)
      in if ip = [] then None
         else case rest of
                [] \<Rightarrow> Some (sg * real (nat_of_digits ip))
              | d # fp \<Rightarrow>
                  if d = CHR ''.'' \<and> fp \<noteq> [] \<and> list_all is_digit fp
                  then Some (sg * (real (nat_of_digits (ip @ fp)) / 10 ^ length fp))
                  else None)"

section \<open>Frames that the model follows to the end\<close>

text \<open>
  The two ways out of the four column kinds are named in \<open>NotModelled\<close>. A frame with
  distinct labels in which no designated categorical column is a float column with a null
  cell does not take either of them in stages 2 to 7.
\<close>

definition within_model :: "table \<Rightarrow> bool" where
  "within_model df \<longleftrightarrow>
     distinct (map fst df) \<and>
     (\<forall>n\<in>set categorical_cols. \<forall>xs. getitem df n = Inr (FloatCol xs) \<longrightarrow> None \<notin> set xs)"

section \<open>The stages, cell by cell\<close>

text \<open>
  Stages 2 to 5 have one shape: read a text column through \<^verbatim>\<open>.str\<close>, compute a new cell
  from each cell, write the column back under the same label. The definitions below give
  that shape and the cell function of each stage; the stages are proved equal to them.
\<close>

definition map_text_column :: "string \<Rightarrow> (string option \<Rightarrow> string option) \<Rightarrow> table \<Rightarrow> pd_error + table" where
  "map_text_column n f df =
     and_then (str_accessor df n) (\<lambda>xs. Inr (setitem df n (TextCol (map f xs))))"

definition gender_cell :: "string option \<Rightarrow> string option" where
  "gender_cell x =
     (let y = (if starts_with_class ''Ff'' x then Some ''F'' else x)
      in if starts_with_class ''Mm'' y then Some ''M'' else y)"

definition state_cell :: "string option \<Rightarrow> string option" where
  "state_cell x = map_option (replace_cell state_mapping) (map_option str_upper x)"

definition education_cell :: "string option \<Rightarrow> string option" where
  "education_cell x = (if starts_with_class ''Bb'' x then Some ''Bachelor'' else x)"

definition vehicle_cell :: "string option \<Rightarrow> string option" where
  "vehicle_cell x =
     (let y = (if starts_with_class ''Lu'' x then Some ''Luxury'' else x)
      in if contains_word ''Sports'' y then Some ''Luxury'' else y)"

text \<open>Stage 1 on one label.\<close>

definition clean_label :: "string \<Rightarrow> string" where
  "clean_label n = rename_label (str_replace_space (str_lower n))"

section \<open>Patterns as the specification words them\<close>

text \<open>
  The standalone word of \<^verbatim>\<open>\bw\b\<close>: \<open>w\<close> occurs in the text with no word
  character right before it and none right after it.
\<close>

definition standalone_word :: "string \<Rightarrow> string \<Rightarrow> bool" where
  "standalone_word w s =
     (\<exists>pre post. s = pre @ w @ post \<and>
        (pre = [] \<or> \<not> is_word_char (last pre)) \<and>
        (post = [] \<or> \<not> is_word_char (hd post)))"

text \<open>
  The slash-delimited token of \<^verbatim>\<open>/(\d+)/\<close>: the text is \<open>pre\<close>, a slash, the token:
  one digit or more, a slash, \<open>post\<close>.
\<close>

definition slash_token_at :: "string \<Rightarrow> string \<Rightarrow> string \<Rightarrow> string \<Rightarrow> bool" where
  "slash_token_at pre t post s \<longleftrightarrow>
     s = pre @ CHR ''/'' # t @ CHR ''/'' # post \<and> t \<noteq> [] \<and> list_all is_digit t"

section \<open>Example frames\<close>

definition states_example :: table where
  "states_example =
     [(''customer'', TextCol [Some ''QZ44356'', Some ''AI49188'', Some ''WW63253'', None]),
      (''state'', TextCol [Some ''ca'', Some ''Cali'', None, Some ''Quebec''])]"

definition genders_example :: table where
  "genders_example =
     [(''gender'', TextCol [Some ''female'', Some ''Male'', None, Some ''F'', Some ''other'']),
      (''customer_income'', FloatCol [Some 10000, None, Some 30000, Some 20000, Some 0])]"

definition vehicles_example :: table where
  "vehicles_example =
     [(''vehicle_class'',
        TextCol [Some ''Luxury SUV'', Some ''Sports Car'', Some ''upscale'', None,
                 Some ''Four-Door Car'', Some ''Sportsman'']),
      (''policy_type'', TextCol [Some ''a'', Some ''b'', Some ''c'', Some ''d'', Some ''e'', Some ''f''])]"

definition genders_cleaned :: table where
  "genders_cleaned =
     [(''gender'', TextCol [Some ''F'', Some ''M'', None, Some ''F'', Some ''other'']),
      (''customer_income'', FloatCol [Some 10000, None, Some 30000, Some 20000, Some 0])]"

definition unrelated_example :: table where
  "unrelated_example = [(''Policy Number'', IntCol [Some 1, Some 2])]"

definition headers_example :: table where
  "headers_example =
     [(''Customer'', TextCol [Some ''RB50392'']),
      (''ST'', TextCol [Some ''Washington'']),
      (''GENDER'', TextCol [None]),
      (''Customer Lifetime Value'', TextCol [None]),
      (''Income'', FloatCol [Some 0])]"

definition headers_cleaned :: table where
  "headers_cleaned =
     [(''customer'', TextCol [Some ''RB50392'']),
      (''state'', TextCol [Some ''Washington'']),
      (''gender'', TextCol [None]),
      (''customer_lifetime_value'', TextCol [None]),
      (''customer_income'', FloatCol [Some 0])]"

definition states_cleaned :: table where
  "states_cleaned =
     [(''customer'', TextCol [Some ''QZ44356'', Some ''AI49188'', Some ''WW63253'', None]),
      (''state'', TextCol [Some ''CALIFORNIA'', Some ''CALIFORNIA'', None, Some ''QUEBEC''])]"

definition educations_example :: table where
  "educations_example =
     [(''education'', TextCol [Some ''Bachelors'', Some ''bachelor'', Some ''Master'', None])]"

definition educations_cleaned :: table where
  "educations_cleaned =
     [(''education'', TextCol [Some ''Bachelor'', Some ''Bachelor'', Some ''Master'', None])]"

definition vehicles_cleaned :: table where
  "vehicles_cleaned =
     [(''vehicle_class'',
        TextCol [Some ''Luxury'', Some ''Luxury'', Some ''Luxury'', None,
                 Some ''Four-Door Car'', Some ''Sportsman'']),
      (''policy_type'', TextCol [Some ''a'', Some ''b'', Some ''c'', Some ''d'', Some ''e'', Some ''f''])]"

definition numerics_example :: table where
  "numerics_example =
     [(''customer_lifetime_value'', TextCol [Some ''897.23%'', Some ''50%%'', Some ''abc'', None]),
      (''number_of_open_complaints'', TextCol [Some ''1/5/00'', Some ''bogus'', None, Some ''1/0/00''])]"

definition numerics_coerced :: table where
  "numerics_coerced =
     [(''customer_lifetime_value'', FloatCol [Some 897.23, Some 50, None, None]),
      (''number_of_open_complaints'', IntCol [Some 5, None, None, Some 0])]"

definition coerced_example :: table where
  "coerced_example =
     [(''customer'', TextCol [Some ''RB50392'', None, Some ''AI49188'', Some ''WW63253'']),
      (''state'', TextCol [Some ''WASHINGTON'', Some ''ARIZONA'', None, Some ''CALIFORNIA'']),
      (''gender'', TextCol [None, Some ''F'', Some ''F'', Some ''M'']),
      (''education'', TextCol [Some ''Master'', Some ''Bachelor'', None, Some ''Bachelor'']),
      (''customer_lifetime_value'', FloatCol [None, Some 697953, Some 1288743, None]),
      (''customer_income'', FloatCol [Some 10000, Some 30000, None, Some 20000]),
      (''monthly_premium_auto'', FloatCol [Some 1000, Some 94, Some 108, Some 106]),
      (''number_of_open_complaints'', IntCol [Some 0, None, Some 0, None]),
      (''policy_type'', TextCol [Some ''Personal Auto'', None, None, Some ''Corporate Auto'']),
      (''vehicle_class'', TextCol [Some ''Four-Door Car'', None, Some ''Two-Door Car'', Some ''SUV'']),
      (''total_claim_amount'', FloatCol [Some 2, Some 1131, Some 566, None])]"

definition filled_example :: table where
  "filled_example =
     [(''customer'', TextCol [Some ''RB50392'', Some ''Unknown'', Some ''AI49188'', Some ''WW63253'']),
      (''state'', TextCol [Some ''WASHINGTON'', Some ''ARIZONA'', Some ''Unknown'', Some ''CALIFORNIA'']),
      (''gender'', TextCol [Some ''Unknown'', Some ''F'', Some ''F'', Some ''M'']),
      (''education'', TextCol [Some ''Master'', Some ''Bachelor'', Some ''Unknown'', Some ''Bachelor'']),
      (''customer_lifetime_value'',
         FloatCol [Some 993348, Some 697953, Some 1288743, Some 993348]),
      (''customer_income'', FloatCol [Some 10000, Some 30000, Some 20000, Some 20000]),
      (''monthly_premium_auto'', FloatCol [Some 1000, Some 94, Some 108, Some 106]),
      (''number_of_open_complaints'', IntCol [Some 0, None, Some 0, None]),
      (''policy_type'',
         TextCol [Some ''Personal Auto'', Some ''Unknown'', Some ''Unknown'', Some ''Corporate Auto'']),
      (''vehicle_class'',
         TextCol [Some ''Four-Door Car'', Some ''Unknown'', Some ''Two-Door Car'', Some ''SUV'']),
      (''total_claim_amount'',
         FloatCol [Some 2, Some 1131, Some 566, Some 566]),
      (''complaints_missing'', BoolCol [False, True, False, True])]"


text \<open>
  A frame with the eleven columns that the pipeline reads, under their normalised labels.
\<close>

definition frame11 ::
  "column \<Rightarrow> column \<Rightarrow> column \<Rightarrow> column \<Rightarrow> column \<Rightarrow> column \<Rightarrow> column \<Rightarrow> column \<Rightarrow>
   column \<Rightarrow> column \<Rightarrow> column \<Rightarrow> table" where
  "frame11 customer state gender education lifetime income premium complaints policy
     vehicle claim =
     [(''customer'', customer),
      (''state'', state),
      (''gender'', gender),
      (''education'', education),
      (''customer_lifetime_value'', lifetime),
      (''customer_income'', income),
      (''monthly_premium_auto'', premium),
      (''number_of_open_complaints'', complaints),
      (''policy_type'', policy),
      (''vehicle_class'', vehicle),
      (''total_claim_amount'', claim)]"

text \<open>What \<^verbatim>\<open>col.fillna(col.median())\<close> leaves in a float column.\<close>

definition median_filled :: "real option list \<Rightarrow> real option list" where
  "median_filled xs =
     (case median (non_null xs) of None \<Rightarrow> xs | Some m \<Rightarrow> map (fill_cell m) xs)"

text \<open>
  The row of the end-to-end example, with the five other required columns holding any
  non-null cells.
\<close>

definition claim_row :: "string \<Rightarrow> string \<Rightarrow> real \<Rightarrow> real \<Rightarrow> real \<Rightarrow> table" where
  "claim_row cust pol clm prem inc =
     frame11 (TextCol [Some cust]) (TextCol [Some ''ca'']) (TextCol [Some ''female''])
       (TextCol [Some ''Bach of Science'']) (TextCol [Some ''897.23%'']) (FloatCol [Some inc])
       (FloatCol [Some prem]) (TextCol [Some ''1/5/00'']) (TextCol [Some pol])
       (TextCol [Some ''luxury car'']) (FloatCol [Some clm])"

text \<open>Two raw rows under raw headers; the second has an unparseable complaints cell.\<close>

definition raw_example :: table where
  "raw_example =
     [(''Customer'', TextCol [Some ''QZ44356'', Some ''AI49188'']),
      (''ST'', TextCol [Some ''Arizona'', Some ''Cali'']),
      (''GENDER'', TextCol [Some ''F'', Some ''Femal'']),
      (''Education'', TextCol [Some ''Bachelors'', None]),
      (''Customer Lifetime Value'', TextCol [Some ''697953.59%'', None]),
      (''Income'', FloatCol [Some 0, Some 48767]),
      (''Monthly Premium Auto'', FloatCol [Some 94, Some 108]),
      (''Number of Open Complaints'', TextCol [Some ''1/0/00'', Some ''bogus'']),
      (''Policy Type'', TextCol [Some ''Personal Auto'', Some ''Personal Auto'']),
      (''Vehicle Class'', TextCol [Some ''Four-Door Car'', Some ''Sports Car'']),
      (''Total Claim Amount'', FloatCol [Some 1131, Some 566])]"

definition raw_cleaned :: table where
  "raw_cleaned =
     frame11 (TextCol [Some ''QZ44356'', Some ''AI49188''])
       (TextCol [Some ''ARIZONA'', Some ''CALIFORNIA''])
       (TextCol [Some ''F'', Some ''F''])
       (TextCol [Some ''Bachelor'', Some ''Unknown''])
       (FloatCol [Some 697953.59, Some 697953.59])
       (FloatCol [Some 0, Some 48767])
       (FloatCol [Some 94, Some 108])
       (IntCol [Some 0, None])
       (TextCol [Some ''Personal Auto'', Some ''Personal Auto''])
       (TextCol [Some ''Four-Door Car'', Some ''Luxury''])
       (FloatCol [Some 1131, Some 566])
     @ [(''complaints_missing'', BoolCol [False, True])]"

section \<open>Facts about column access\<close>

lemma columns_named_Nil_iff: "columns_named df n = [] \<longleftrightarrow> n \<notin> fst ` set df"
  by (induction df) (auto simp: columns_named_def)

lemma filter_relabel_other:
  "n \<noteq> name \<Longrightarrow>
     filter (\<lambda>p. fst p = n) (map (\<lambda>p. if fst p = name then (name, c) else p) xs) =
     filter (\<lambda>p. fst p = n) xs"
  by (induction xs) auto

lemma columns_named_setitem_other:
  "n \<noteq> name \<Longrightarrow> columns_named (setitem df name c) n = columns_named df n"
  by (simp add: columns_named_def setitem_def filter_relabel_other)

lemma columns_named_setitem_same:
  "columns_named (setitem df name c) name =
     (if name \<in> fst ` set df then replicate (length (columns_named df name)) c else [c])"
proof -
  have a: "map snd (filter (\<lambda>p. fst p = name) (map (\<lambda>p. if fst p = name then (name, c) else p) xs))
           = replicate (length (filter (\<lambda>p. fst p = name) xs)) c" for xs :: table
    by (induction xs) auto
  have b: "name \<notin> fst ` set xs \<Longrightarrow> filter (\<lambda>p. fst p = name) xs = []" for xs :: table
    by (induction xs) auto
  show ?thesis
    by (simp add: columns_named_def setitem_def a b)
qed

lemma getitem_setitem_other:
  "n \<noteq> name \<Longrightarrow> getitem (setitem df name c) n = getitem df n"
  by (simp add: getitem_def columns_named_setitem_other)

lemma getitem_Inr_iff: "getitem df n = Inr c \<longleftrightarrow> columns_named df n = [c]"
  by (auto simp: getitem_def split: list.splits)

lemma getitem_KeyError_iff: "getitem df n = Inl KeyError \<longleftrightarrow> n \<notin> fst ` set df"
  by (auto simp: getitem_def columns_named_Nil_iff[symmetric] split: list.splits)

lemma getitem_setitem_same:
  "getitem df name = Inr c0 \<Longrightarrow> getitem (setitem df name c) name = Inr c"
  by (auto simp: getitem_Inr_iff columns_named_setitem_same columns_named_Nil_iff[symmetric])

lemma getitem_setitem_new:
  "name \<notin> fst ` set df \<Longrightarrow> getitem (setitem df name c) name = Inr c"
  by (simp add: getitem_Inr_iff columns_named_setitem_same)

lemma map_fst_relabel:
  "map fst (map (\<lambda>p. if fst p = name then (name, c) else p) xs) = map fst xs"
  by (induction xs) auto

lemma map_fst_setitem:
  "name \<in> fst ` set df \<Longrightarrow> map fst (setitem df name c) = map fst df"
  by (simp add: setitem_def map_fst_relabel)

lemma getitem_Inr_mem: "getitem df n = Inr c \<Longrightarrow> n \<in> fst ` set df"
  using columns_named_Nil_iff[of df n] by (auto simp: getitem_Inr_iff)

lemma fst_set_setitem: "fst ` set (setitem df n c) = insert n (fst ` set df)"
proof (cases "n \<in> fst ` set df")
  case True
  then have "set (map fst (setitem df n c)) = set (map fst df)"
    by (simp only: map_fst_setitem)
  with True show ?thesis by auto
next
  case False
  then show ?thesis by (simp add: setitem_def)
qed

lemma relabel_relabel:
  "map (\<lambda>p. if fst p = n then (n, c') else p) (map (\<lambda>p. if fst p = n then (n, c) else p) xs) =
   map (\<lambda>p. if fst p = n then (n, c') else p) xs"
  by (induction xs) auto

lemma relabel_absent:
  "n \<notin> fst ` set xs \<Longrightarrow> map (\<lambda>p. if fst p = n then (n, c) else p) xs = xs"
  by (induction xs) auto

lemma setitem_setitem: "setitem (setitem df n c) n c' = setitem df n c'"
proof (cases "n \<in> fst ` set df")
  case True
  then show ?thesis
    using fst_set_setitem[of df n c] by (simp add: setitem_def[of "setitem df n c"]) (simp add: setitem_def relabel_relabel)
next
  case False
  then show ?thesis
    using fst_set_setitem[of df n c] by (simp add: setitem_def[of "setitem df n c"]) (simp add: setitem_def relabel_absent)
qed

lemma setitem_same: "getitem df n = Inr c \<Longrightarrow> setitem df n c = df"
proof -
  assume a: "getitem df n = Inr c"
  have "columns_named xs n = replicate k c \<Longrightarrow> map (\<lambda>p. if fst p = n then (n, c) else p) xs = xs" for xs :: table and k
    apply (induction xs arbitrary: k) apply (auto simp: columns_named_def)
     apply (case_tac k; simp)
    apply (case_tac k; auto)
    done
  from this[of df 1] a getitem_Inr_mem[OF a] show ?thesis
    by (simp add: getitem_Inr_iff setitem_def)
qed

lemma str_accessor_Inr_iff: "str_accessor df n = Inr xs \<longleftrightarrow> getitem df n = Inr (TextCol xs)"
  by (auto simp: str_accessor_def split: sum.splits column.splits)

lemma str_accessor_setitem_same:
  "str_accessor df n = Inr xs \<Longrightarrow> str_accessor (setitem df n (TextCol ys)) n = Inr ys"
  by (simp add: str_accessor_Inr_iff getitem_setitem_same)

lemma and_then_Inr_iff: "and_then r f = Inr y \<longleftrightarrow> (\<exists>x. r = Inr x \<and> f x = Inr y)"
  by (cases r) (simp_all add: and_then_def)

lemma and_then_Inl [simp]: "and_then (Inl e) f = Inl e"
  by (simp add: and_then_def)

lemma and_then_Inr [simp]: "and_then (Inr x) f = f x"
  by (simp add: and_then_def)

lemma map_text_column_Inr_iff:
  "map_text_column n f df = Inr df' \<longleftrightarrow>
     (\<exists>xs. getitem df n = Inr (TextCol xs) \<and> df' = setitem df n (TextCol (map f xs)))"
  by (auto simp: map_text_column_def and_then_Inr_iff str_accessor_Inr_iff)

lemma map_text_column_absent:
  "n \<notin> fst ` set df \<Longrightarrow> map_text_column n f df = Inl KeyError"
  by (simp add: map_text_column_def str_accessor_def getitem_KeyError_iff[symmetric])

lemma map_text_column_idem:
  assumes f: "\<And>x. f (f x) = f x" and r: "map_text_column n f df = Inr df'"
  shows "map_text_column n f df' = Inr df'"
proof -
  from r obtain xs where g: "getitem df n = Inr (TextCol xs)"
    and d: "df' = setitem df n (TextCol (map f xs))"
    by (auto simp: map_text_column_Inr_iff)
  have g': "getitem df' n = Inr (TextCol (map f xs))"
    unfolding d using g by (rule getitem_setitem_same)
  have "map f (map f xs) = map f xs" by (simp add: f)
  then have "setitem df' n (TextCol (map f (map f xs))) = df'"
    using setitem_same[OF g'] by (simp only:)
  with g' show ?thesis by (auto simp: map_text_column_Inr_iff)
qed

lemma standardize_gender_eq: "standardize_gender df = map_text_column ''gender'' gender_cell df"
proof (cases "str_accessor df ''gender''")
  case (Inl e)
  then show ?thesis by (simp add: standardize_gender_def map_text_column_def)
next
  case (Inr xs)
  then show ?thesis
    by (simp add: standardize_gender_def map_text_column_def str_accessor_setitem_same
        setitem_setitem loc_assign_def gender_cell_def[abs_def] Let_def comp_def)
qed

lemma standardize_state_eq: "standardize_state df = map_text_column ''state'' state_cell df"
  by (simp add: standardize_state_def map_text_column_def state_cell_def[abs_def] comp_def)

lemma standardize_education_eq:
  "standardize_education df = map_text_column ''education'' education_cell df"
  by (simp add: standardize_education_def map_text_column_def education_cell_def[abs_def] loc_assign_def)

lemma standardize_vehicle_class_eq:
  "standardize_vehicle_class df = map_text_column ''vehicle_class'' vehicle_cell df"
proof (cases "str_accessor df ''vehicle_class''")
  case (Inl e)
  then show ?thesis by (simp add: standardize_vehicle_class_def map_text_column_def)
next
  case (Inr xs)
  then show ?thesis
    by (simp add: standardize_vehicle_class_def map_text_column_def str_accessor_setitem_same
        setitem_setitem loc_assign_def vehicle_cell_def[abs_def] Let_def comp_def)
qed

section \<open>Facts about the text primitives\<close>

lemma search_word_iff:
  assumes "w \<noteq> []"
  shows "search_word w prev s \<longleftrightarrow>
     (\<exists>pre post. s = pre @ w @ post \<and>
        (if pre = [] then \<not> prev else \<not> is_word_char (last pre)) \<and>
        (post = [] \<or> \<not> is_word_char (hd post)))"
proof (induction s arbitrary: prev)
  case Nil
  then show ?case using assms by simp
next
  case (Cons c cs)
  have here: "(take (length w) (c # cs) = w \<and>
        (case drop (length w) (c # cs) of [] \<Rightarrow> True | d # _ \<Rightarrow> \<not> is_word_char d))
      \<longleftrightarrow> (\<exists>post. c # cs = w @ post \<and> (post = [] \<or> \<not> is_word_char (hd post)))"
    (is "?L \<longleftrightarrow> ?R")
  proof
    assume l: ?L
    then have "c # cs = w @ drop (length w) (c # cs)"
      by (metis append_take_drop_id)
    with l show ?R by (auto split: list.splits)
  next
    assume ?R
    then obtain post where e: "c # cs = w @ post"
      and b: "post = [] \<or> \<not> is_word_char (hd post)" by blast
    have "take (length w) (c # cs) = w" "drop (length w) (c # cs) = post"
      unfolding e by simp_all
    then show ?L using b by (cases post) auto
  qed
  have later: "(\<exists>pre post. cs = pre @ w @ post \<and>
        (if pre = [] then \<not> is_word_char c else \<not> is_word_char (last pre)) \<and>
        (post = [] \<or> \<not> is_word_char (hd post)))
     \<longleftrightarrow> (\<exists>pre post. pre \<noteq> [] \<and> c # cs = pre @ w @ post \<and>
        \<not> is_word_char (last pre) \<and> (post = [] \<or> \<not> is_word_char (hd post)))"
    (is "?A \<longleftrightarrow> ?B")
  proof
    assume ?A
    then obtain pre post where p: "cs = pre @ w @ post"
        "if pre = [] then \<not> is_word_char c else \<not> is_word_char (last pre)"
        "post = [] \<or> \<not> is_word_char (hd post)" by blast
    then have "c # pre \<noteq> [] \<and> c # cs = (c # pre) @ w @ post \<and> \<not> is_word_char (last (c # pre))"
      by (auto split: if_splits)
    with p(3) show ?B by blast
  next
    assume ?B
    then obtain pre post where p: "pre \<noteq> []" "c # cs = pre @ w @ post"
        "\<not> is_word_char (last pre)" "post = [] \<or> \<not> is_word_char (hd post)" by blast
    from p(1) obtain pre' where pre: "pre = c # pre'" using p(2) by (cases pre) auto
    with p have "cs = pre' @ w @ post \<and>
        (if pre' = [] then \<not> is_word_char c else \<not> is_word_char (last pre'))"
      by (auto split: if_splits)
    with p(4) show ?A by blast
  qed
  have "search_word w prev (c # cs) \<longleftrightarrow> (\<not> prev \<and> ?L) \<or> ?A"
    using Cons.IH[of "is_word_char c"] by simp
  also have "\<dots> \<longleftrightarrow> (\<not> prev \<and> ?R) \<or> ?B"
    using here later by simp
  also have "\<dots> \<longleftrightarrow> (\<exists>pre post. c # cs = pre @ w @ post \<and>
        (if pre = [] then \<not> prev else \<not> is_word_char (last pre)) \<and>
        (post = [] \<or> \<not> is_word_char (hd post)))"
    (is "_ \<longleftrightarrow> ?C")
  proof
    assume "(\<not> prev \<and> ?R) \<or> ?B"
    then show ?C
    proof
      assume "\<not> prev \<and> ?R"
      then obtain post where "c # cs = [] @ w @ post" "\<not> prev" "post = [] \<or> \<not> is_word_char (hd post)"
        by auto
      then show ?C by (intro exI[of _ "[]"] exI[of _ post]) simp
    next
      assume ?B
      then show ?C by auto
    qed
  next
    assume ?C
    then obtain pre post where p: "c # cs = pre @ w @ post"
        "if pre = [] then \<not> prev else \<not> is_word_char (last pre)"
        "post = [] \<or> \<not> is_word_char (hd post)" by blast
    show "(\<not> prev \<and> ?R) \<or> ?B"
    proof (cases "pre = []")
      case True
      with p show ?thesis by auto
    next
      case False
      with p have ?B by auto
      then show ?thesis ..
    qed
  qed
  finally show ?case .
qed

lemma search_word_standalone:
  "w \<noteq> [] \<Longrightarrow> search_word w False s \<longleftrightarrow> standalone_word w s"
  unfolding standalone_word_def by (subst search_word_iff) auto

lemma lower_letter_code:
  "c \<in> set ''abcdefghijklmnopqrstuvwxyz'' \<longleftrightarrow> 97 \<le> (of_char c :: nat) \<and> (of_char c :: nat) \<le> 122"
proof
  assume "c \<in> set ''abcdefghijklmnopqrstuvwxyz''"
  then show "97 \<le> (of_char c :: nat) \<and> (of_char c :: nat) \<le> 122"
    by auto
next
  assume a: "97 \<le> (of_char c :: nat) \<and> (of_char c :: nat) \<le> 122"
  define n where "n = (of_char c :: nat)"
  have c: "c = char_of n" by (simp add: n_def)
  from a have "n = 97 \<or> n = 98 \<or> n = 99 \<or> n = 100 \<or> n = 101 \<or> n = 102 \<or> n = 103 \<or>
      n = 104 \<or> n = 105 \<or> n = 106 \<or> n = 107 \<or> n = 108 \<or> n = 109 \<or> n = 110 \<or> n = 111 \<or>
      n = 112 \<or> n = 113 \<or> n = 114 \<or> n = 115 \<or> n = 116 \<or> n = 117 \<or> n = 118 \<or> n = 119 \<or>
      n = 120 \<or> n = 121 \<or> n = 122"
    unfolding n_def[symmetric] by arith
  then show "c \<in> set ''abcdefghijklmnopqrstuvwxyz''"
    unfolding c by (elim disjE) (simp_all add: char_of_def bit_Suc_0_iff)
qed

lemma char_upper_code:
  "(of_char (char_upper c) :: nat) =
     (if 97 \<le> (of_char c :: nat) \<and> (of_char c :: nat) \<le> 122 then of_char c - 32 else of_char c)"
proof (cases "c \<in> set ''abcdefghijklmnopqrstuvwxyz''")
  case True
  then show ?thesis
    by (auto simp: char_upper_def upper_table_def)
next
  case False
  then have "map_of upper_table c = None"
    by (simp add: upper_table_def map_of_eq_None_iff)
  moreover from False have "\<not> (97 \<le> (of_char c :: nat) \<and> (of_char c :: nat) \<le> 122)"
    unfolding lower_letter_code .
  ultimately show ?thesis
    by (auto simp: char_upper_def)
qed

lemma str_upper_code:
  "length (str_upper v) = length v \<and>
   (\<forall>i<length v. (of_char (str_upper v ! i) :: nat) =
      (if 97 \<le> (of_char (v ! i) :: nat) \<and> (of_char (v ! i) :: nat) \<le> 122
       then of_char (v ! i) - 32 else of_char (v ! i)))"
  by (simp add: str_upper_def char_upper_code)

section \<open>The single-column stages keep the rest of the frame\<close>

lemma setitem_frame:
  assumes "getitem df n = Inr c0"
  shows "map fst (setitem df n c) = map fst df"
    and "length (setitem df n c) = length df"
    and "\<forall>i<length df. fst (df ! i) \<noteq> n \<longrightarrow> setitem df n c ! i = df ! i"
    and "col_length c = col_length c0 \<Longrightarrow>
           \<forall>i<length df. col_length (snd (setitem df n c ! i)) = col_length (snd (df ! i))"
proof -
  have m: "n \<in> fst ` set df" using assms by (rule getitem_Inr_mem)
  then have s: "setitem df n c = map (\<lambda>p. if fst p = n then (n, c) else p) df"
    by (simp add: setitem_def)
  show "map fst (setitem df n c) = map fst df" using m by (rule map_fst_setitem)
  show "length (setitem df n c) = length df" by (simp add: s)
  show "\<forall>i<length df. fst (df ! i) \<noteq> n \<longrightarrow> setitem df n c ! i = df ! i" by (simp add: s)
  show "\<forall>i<length df. col_length (snd (setitem df n c ! i)) = col_length (snd (df ! i))"
    if l: "col_length c = col_length c0"
  proof (intro allI impI)
    fix i assume i: "i < length df"
    show "col_length (snd (setitem df n c ! i)) = col_length (snd (df ! i))"
    proof (cases "fst (df ! i) = n")
      case True
      have "snd (df ! i) \<in> set (columns_named df n)"
        using i True by (auto simp: columns_named_def intro!: image_eqI[where x="df ! i"])
      then have "snd (df ! i) = c0" using assms by (simp add: getitem_Inr_iff)
      then show ?thesis using i True l by (simp add: s)
    next
      case False
      then show ?thesis using i by (simp add: s)
    qed
  qed
qed

lemma map_text_column_frame:
  assumes "map_text_column n f df = Inr df'"
  shows "map fst df' = map fst df \<and> length df' = length df \<and>
         (\<forall>i<length df. fst (df ! i) \<noteq> n \<longrightarrow> df' ! i = df ! i) \<and>
         (\<forall>i<length df. col_length (snd (df' ! i)) = col_length (snd (df ! i)))"
proof -
  from assms obtain xs where g: "getitem df n = Inr (TextCol xs)"
    and d: "df' = setitem df n (TextCol (map f xs))"
    by (auto simp: map_text_column_Inr_iff)
  have "col_length (TextCol (map f xs)) = col_length (TextCol xs)" by simp
  from setitem_frame(1-3)[OF g] setitem_frame(4)[OF g this]
  show ?thesis unfolding d by blast
qed

lemma map_text_column_total:
  assumes "getitem df n = Inr (TextCol xs)"
  shows "\<exists>df'. map_text_column n f df = Inr df' \<and> getitem df' n = Inr (TextCol (map f xs))"
  using assms getitem_setitem_same[OF assms]
  by (auto simp: map_text_column_Inr_iff)

lemma state_mapping_facts:
  "length state_mapping = 51"
  "distinct (map fst state_mapping)"
  "map_of state_mapping ''CALI'' = Some ''CALIFORNIA''"
  "length (filter (\<lambda>k. length k = 2) (map fst state_mapping)) = 50"
  by (simp_all add: state_mapping_def)

lemma vehicle_cell_eq:
  "vehicle_cell x =
     (case x of
        None \<Rightarrow> None
      | Some s \<Rightarrow>
          if (\<exists>t. s = CHR ''L'' # t \<or> s = CHR ''u'' # t) \<or> standalone_word ''Sports'' s
          then Some ''Luxury'' else Some s)"
proof (cases x)
  case None
  then show ?thesis by (simp add: vehicle_cell_def starts_with_class_def contains_word_def)
next
  case (Some s)
  have lux: "\<not> search_word ''Sports'' False ''Luxury''"
    by (simp add: is_word_char_def)
  have st: "starts_with_class ''Lu'' (Some s) \<longleftrightarrow> (\<exists>t. s = CHR ''L'' # t \<or> s = CHR ''u'' # t)"
    by (cases s) (auto simp: starts_with_class_def)
  have w: "contains_word ''Sports'' (Some s) \<longleftrightarrow> standalone_word ''Sports'' s"
    by (simp add: contains_word_def search_word_standalone)
  show ?thesis
    unfolding Some vehicle_cell_def Let_def
    using st w lux by (simp add: contains_word_def)
qed

section \<open>Stage 6 in closed form\<close>

lemma case_option_comp_map_option:
  "case_option None r \<circ> map_option g = case_option None (\<lambda>s. r (g s))"
  by (auto simp: fun_eq_iff split: option.splits)

lemma clean_and_convert_numerical_Inr_iff:
  "clean_and_convert_numerical rd df = Inr df' \<longleftrightarrow>
     (\<exists>xs ys d'.
        getitem df ''customer_lifetime_value'' = Inr (TextCol xs) \<and>
        getitem df ''number_of_open_complaints'' = Inr (TextCol ys) \<and>
        to_numeric_Int64
          (TextCol (map (\<lambda>y. case y of None \<Rightarrow> None | Some s \<Rightarrow> str_extract_token s) ys)) = Inr d' \<and>
        df' = setitem
                (setitem df ''customer_lifetime_value''
                   (FloatCol (map (\<lambda>x. case x of None \<Rightarrow> None
                                          | Some s \<Rightarrow> rd (str_rstrip CHR ''%'' s)) xs)))
                ''number_of_open_complaints'' d')"
  (is "?L \<longleftrightarrow> ?R")
proof (cases "getitem df ''customer_lifetime_value''")
  case (Inl e)
  then show ?thesis by (simp add: clean_and_convert_numerical_def str_accessor_def)
next
  case (Inr c)
  show ?thesis
  proof (cases "\<exists>xs. c = TextCol xs")
    case False
    then show ?thesis using Inr
      by (cases c) (simp_all add: clean_and_convert_numerical_def str_accessor_def)
  next
    case True
    then obtain xs where c: "c = TextCol xs" by blast
    let ?f = "FloatCol (map (\<lambda>x. case x of None \<Rightarrow> None | Some s \<Rightarrow> rd (str_rstrip CHR ''%'' s)) xs)"
    let ?df2 = "setitem df ''customer_lifetime_value'' ?f"
    have g: "getitem df ''customer_lifetime_value'' = Inr (TextCol xs)" using Inr c by simp
    have noc: "getitem ?df2 ''number_of_open_complaints'' = getitem df ''number_of_open_complaints''"
      by (simp add: getitem_setitem_other)
    have step1: "clean_and_convert_numerical rd df =
        and_then (str_accessor ?df2 ''number_of_open_complaints'') (\<lambda>ys.
          let df3 = setitem ?df2 ''number_of_open_complaints''
                      (TextCol (map (\<lambda>y. case y of None \<Rightarrow> None | Some s \<Rightarrow> str_extract_token s) ys))
          in and_then (getitem df3 ''number_of_open_complaints'') (\<lambda>d.
               and_then (to_numeric_Int64 d) (\<lambda>d'.
                 Inr (setitem df3 ''number_of_open_complaints'' d'))))"
      using g
      by (simp add: clean_and_convert_numerical_def str_accessor_def getitem_setitem_same
          to_numeric_float_def setitem_setitem Let_def case_option_comp_map_option)
    show ?thesis
    proof (cases "getitem df ''number_of_open_complaints''")
      case (Inl e)
      then show ?thesis using noc by (simp add: step1 str_accessor_def)
    next
      case d: (Inr d)
      show ?thesis
      proof (cases "\<exists>ys. d = TextCol ys")
        case False
        then show ?thesis using d noc
          by (cases d) (simp_all add: step1 str_accessor_def)
      next
        case True
        then obtain ys where "d = TextCol ys" by blast
        with d noc have h: "getitem ?df2 ''number_of_open_complaints'' = Inr (TextCol ys)"
          "getitem df ''number_of_open_complaints'' = Inr (TextCol ys)" by simp_all
        show ?thesis
          using g h
          by (auto simp: step1 str_accessor_def getitem_setitem_same setitem_setitem Let_def
              and_then_Inr_iff)
      qed
    qed
  qed
qed

section \<open>The filling loops of stage 7\<close>

lemma getitem_setitem_at_most_one:
  assumes "length (columns_named df n) \<le> 1"
  shows "getitem (setitem df n c) n = Inr c"
proof (cases "n \<in> fst ` set df")
  case False
  then show ?thesis by (rule getitem_setitem_new)
next
  case True
  then have "columns_named df n \<noteq> []" by (simp add: columns_named_Nil_iff)
  with assms obtain c0 where "columns_named df n = [c0]"
    by (cases "columns_named df n") auto
  then have "getitem df n = Inr c0" by (simp add: getitem_Inr_iff)
  then show ?thesis by (rule getitem_setitem_same)
qed

lemma fill_columns_frame:
  assumes "fill_columns f ns df = Inr df'"
  shows "map fst df' = map fst df \<and> set ns \<subseteq> fst ` set df \<and>
         (\<forall>m. m \<notin> set ns \<longrightarrow> getitem df' m = getitem df m)"
  using assms
proof (induction ns arbitrary: df)
  case Nil
  then show ?case by simp
next
  case (Cons n ns)
  from Cons.prems obtain c c' where g: "getitem df n = Inr c" and f: "f c = Inr c'"
    and r: "fill_columns f ns (setitem df n c') = Inr df'"
    by (auto simp: and_then_Inr_iff)
  have m: "n \<in> fst ` set df" using g by (rule getitem_Inr_mem)
  have l: "map fst (setitem df n c') = map fst df" using m by (rule map_fst_setitem)
  then have s: "fst ` set (setitem df n c') = fst ` set df"
    by (metis list.set_map)
  from Cons.IH[OF r] l s m show ?case
    by (auto simp: getitem_setitem_other)
qed

lemma fill_columns_result:
  assumes "distinct ns" and "fill_columns f ns df = Inr df'" and "n \<in> set ns"
  shows "\<exists>c c'. getitem df n = Inr c \<and> f c = Inr c' \<and> getitem df' n = Inr c'"
  using assms
proof (induction ns arbitrary: df)
  case Nil
  then show ?case by simp
next
  case (Cons k ns)
  from Cons.prems(2) obtain c c' where g: "getitem df k = Inr c" and f: "f c = Inr c'"
    and r: "fill_columns f ns (setitem df k c') = Inr df'"
    by (auto simp: and_then_Inr_iff)
  from Cons.prems(1) have d: "distinct ns" and k: "k \<notin> set ns" by simp_all
  show ?case
  proof (cases "n = k")
    case True
    have "getitem df' k = getitem (setitem df k c') k"
      using fill_columns_frame[OF r] k by blast
    also have "\<dots> = Inr c'" using g by (rule getitem_setitem_same)
    finally show ?thesis using g f True by blast
  next
    case False
    with Cons.prems(3) have "n \<in> set ns" by simp
    from Cons.IH[OF d r this] False show ?thesis
      by (simp add: getitem_setitem_other)
  qed
qed

lemma fill_columns_fixed:
  assumes "\<forall>n\<in>set ns. \<exists>c. getitem df n = Inr c \<and> f c = Inr c"
  shows "fill_columns f ns df = Inr df"
  using assms
proof (induction ns)
  case Nil
  then show ?case by simp
next
  case (Cons n ns)
  then obtain c where g: "getitem df n = Inr c" and f: "f c = Inr c" by auto
  from Cons have "fill_columns f ns df = Inr df" by simp
  with g f setitem_same[OF g] show ?case by simp
qed


lemma fillna_text_idem: "fillna_text v c = Inr c' \<Longrightarrow> fillna_text v c' = Inr c'"
  by (cases c) (auto simp: fillna_text_def fill_cell_def list_ex_iff split: if_splits option.splits)


lemma non_null_fill: "non_null (map (fill_cell m) xs) = map (\<lambda>x. case x of None \<Rightarrow> m | Some y \<Rightarrow> y) xs"
  by (induction xs) (auto simp: non_null_def List.map_filter_def fill_cell_def split: option.splits)

lemma fill_cell_fill_cell: "fill_cell m' (fill_cell m x) = fill_cell m x"
  by (auto simp: fill_cell_def split: option.splits)

lemma median_None_iff: "median vs = None \<longleftrightarrow> vs = []"
proof (cases "vs = []")
  case True
  then show ?thesis by (simp add: median_def)
next
  case False
  then have l: "length (sort vs) \<noteq> 0" by simp
  have "median vs \<noteq> None"
    using l by (cases "odd (length (sort vs))")
      (simp_all add: median_def Let_def del: length_sort length_0_conv not_None_eq)
  with False show ?thesis by simp
qed

lemma median_Some_iff: "(\<exists>m. median vs = Some m) \<longleftrightarrow> vs \<noteq> []"
  using median_None_iff[of vs] by auto

lemma fillna_median_idem: "fillna_median c = Inr c' \<Longrightarrow> fillna_median c' = Inr c'"
proof (cases c)
  case (TextCol xs)
  then show "fillna_median c = Inr c' \<Longrightarrow> fillna_median c' = Inr c'"
    by (auto simp: fillna_median_def split: if_splits)
next
  case (FloatCol xs)
  assume a: "fillna_median c = Inr c'"
  show "fillna_median c' = Inr c'"
  proof (cases "median (non_null xs)")
    case None
    with a FloatCol show ?thesis by (auto simp: fillna_median_def)
  next
    case (Some m)
    with a FloatCol have c': "c' = FloatCol (map (fill_cell m) xs)"
      by (auto simp: fillna_median_def)
    from Some have "xs \<noteq> []" by (auto simp: median_def non_null_def List.map_filter_def Let_def)
    then have "non_null (map (fill_cell m) xs) \<noteq> []" by (simp add: non_null_fill)
    then obtain m' where "median (non_null (map (fill_cell m) xs)) = Some m'"
      using median_Some_iff by blast
    then show ?thesis by (simp add: c' fillna_median_def fill_cell_fill_cell)
  qed
next
  case (IntCol xs)
  assume a: "fillna_median c = Inr c'"
  have n: "list_all (\<lambda>x. x \<noteq> None) (map (fill_cell k) xs)" for k :: int
    by (auto simp: list_all_iff fill_cell_def split: option.splits)
  have full: "list_all (\<lambda>x. x \<noteq> None) ys \<Longrightarrow> fillna_median (IntCol ys) = Inr (IntCol ys)"
    for ys by (simp only: fillna_median_def column.case if_True)
  show "fillna_median c' = Inr c'"
  proof (cases "list_all (\<lambda>x. x \<noteq> None) xs")
    case True
    with a IntCol have "c' = IntCol xs" by (simp only: fillna_median_def column.case if_True sum.inject)
    with True show ?thesis by (simp only: full)
  next
    case False
    show ?thesis
    proof (cases "median (map real_of_int (non_null xs))")
      case None
      with a IntCol False have "c' = IntCol xs"
        by (simp only: fillna_median_def column.case if_False option.case sum.inject)
      with None False show ?thesis
        by (simp only: fillna_median_def column.case if_False option.case)
    next
      case (Some m)
      with a IntCol False have "c' = IntCol (map (fill_cell \<lfloor>m\<rfloor>) xs)"
        by (auto simp: fillna_median_def split: if_splits)
      then show ?thesis by (simp only: full[OF n])
    qed
  qed
next
  case (BoolCol bs)
  then show "fillna_median c = Inr c' \<Longrightarrow> fillna_median c' = Inr c'"
    by (auto simp: fillna_median_def)
qed

section \<open>Missing columns\<close>

lemma handle_missing_values_Inr_iff:
  "handle_missing_values df = Inr df' \<longleftrightarrow>
     (\<exists>df1 df2 c.
        fill_columns (fillna_text ''Unknown'') categorical_cols df = Inr df1 \<and>
        fill_columns fillna_median numerical_cols df1 = Inr df2 \<and>
        getitem df2 ''number_of_open_complaints'' = Inr c \<and>
        length (columns_named df2 ''complaints_missing'') \<le> 1 \<and>
        df' = setitem df2 ''complaints_missing'' (BoolCol (isnull c)))"
  by (auto simp: handle_missing_values_def and_then_Inr_iff split: if_splits)

lemma cols_distinct:
  "distinct categorical_cols" "distinct numerical_cols"
  "set categorical_cols \<inter> set numerical_cols = {}"
  "''number_of_open_complaints'' \<notin> set categorical_cols"
  "''number_of_open_complaints'' \<notin> set numerical_cols"
  "''complaints_missing'' \<notin> set categorical_cols"
  "''complaints_missing'' \<notin> set numerical_cols"
  by (simp_all add: categorical_cols_def numerical_cols_def)

lemma handle_missing_values_missing:
  assumes "n \<in> insert ''number_of_open_complaints'' (set categorical_cols \<union> set numerical_cols)"
    and "n \<notin> fst ` set df"
  shows "\<exists>e. handle_missing_values df = Inl e"
proof (cases "handle_missing_values df")
  case (Inl e)
  then show ?thesis by blast
next
  case (Inr df')
  then obtain df1 df2 c where
    a: "fill_columns (fillna_text ''Unknown'') categorical_cols df = Inr df1" and
    b: "fill_columns fillna_median numerical_cols df1 = Inr df2" and
    c: "getitem df2 ''number_of_open_complaints'' = Inr c"
    by (auto simp: handle_missing_values_Inr_iff)
  from fill_columns_frame[OF a] fill_columns_frame[OF b]
  have l: "map fst df1 = map fst df" "map fst df2 = map fst df"
    and s: "set categorical_cols \<subseteq> fst ` set df" "set numerical_cols \<subseteq> fst ` set df1"
    by simp_all
  from l have e: "fst ` set df1 = fst ` set df" "fst ` set df2 = fst ` set df"
    by (metis list.set_map)+
  from getitem_Inr_mem[OF c] e s assms show ?thesis by auto
qed

lemma clean_and_convert_numerical_labels:
  assumes "clean_and_convert_numerical rd df = Inr df'"
  shows "map fst df' = map fst df"
proof -
  from assms obtain xs ys d' c' where
    x: "getitem df ''customer_lifetime_value'' = Inr (TextCol xs)" and
    y: "getitem df ''number_of_open_complaints'' = Inr (TextCol ys)" and
    d: "df' = setitem (setitem df ''customer_lifetime_value'' c') ''number_of_open_complaints'' d'"
    by (auto simp: clean_and_convert_numerical_Inr_iff)
  have "getitem (setitem df ''customer_lifetime_value'' c') ''number_of_open_complaints'' = Inr (TextCol ys)"
    using y by (simp add: getitem_setitem_other)
  from setitem_frame(1)[OF this] setitem_frame(1)[OF x] show ?thesis
    unfolding d by simp
qed

lemma clean_and_convert_numerical_missing:
  assumes "''customer_lifetime_value'' \<notin> fst ` set df \<or> ''number_of_open_complaints'' \<notin> fst ` set df"
  shows "\<exists>e. clean_and_convert_numerical rd df = Inl e"
proof (cases "clean_and_convert_numerical rd df")
  case (Inl e)
  then show ?thesis by blast
next
  case (Inr df')
  then obtain xs ys where
    "getitem df ''customer_lifetime_value'' = Inr (TextCol xs)"
    "getitem df ''number_of_open_complaints'' = Inr (TextCol ys)"
    by (auto simp: clean_and_convert_numerical_Inr_iff)
  from this[THEN getitem_Inr_mem] assms show ?thesis by blast
qed

lemma map_text_column_labels:
  "map_text_column n f df = Inr df' \<Longrightarrow> map fst df' = map fst df"
  using map_text_column_frame by blast

lemma main_cleaning_pipeline_Inr_iff:
  "main_cleaning_pipeline rd df = Inr df' \<longleftrightarrow>
     (\<exists>df1 df2 df3 df4 df5 df6.
        clean_column_names df = Inr df1 \<and> standardize_gender df1 = Inr df2 \<and>
        standardize_state df2 = Inr df3 \<and> standardize_education df3 = Inr df4 \<and>
        standardize_vehicle_class df4 = Inr df5 \<and>
        clean_and_convert_numerical rd df5 = Inr df6 \<and> handle_missing_values df6 = Inr df')"
  by (simp add: main_cleaning_pipeline_def and_then_Inr_iff)

lemma main_cleaning_pipeline_missing:
  assumes "clean_column_names df = Inr df1"
    and "n \<in> insert ''number_of_open_complaints'' (set categorical_cols \<union> set numerical_cols)"
    and "n \<notin> fst ` set df1"
  shows "\<exists>e. main_cleaning_pipeline rd df = Inl e"
proof (cases "main_cleaning_pipeline rd df")
  case (Inl e)
  then show ?thesis by blast
next
  case (Inr df')
  then obtain df2 df3 df4 df5 df6 where
    s: "standardize_gender df1 = Inr df2" "standardize_state df2 = Inr df3"
       "standardize_education df3 = Inr df4" "standardize_vehicle_class df4 = Inr df5"
       "clean_and_convert_numerical rd df5 = Inr df6" "handle_missing_values df6 = Inr df'"
    using assms(1) by (auto simp: main_cleaning_pipeline_Inr_iff)
  have "map fst df6 = map fst df1"
    using s(1-4)[unfolded standardize_gender_eq standardize_state_eq standardize_education_eq
        standardize_vehicle_class_eq, THEN map_text_column_labels]
      clean_and_convert_numerical_labels[OF s(5)] by simp
  then have "fst ` set df6 = fst ` set df1" by (metis list.set_map)
  with assms(3) have "n \<notin> fst ` set df6" by simp
  from handle_missing_values_missing[OF assms(2) this] s(6) show ?thesis by simp
qed

section \<open>The error of a missing column is raised inside the model\<close>

lemma raises_iff: "raises r \<longleftrightarrow> (\<exists>e. r = Inl e) \<and> r \<noteq> Inl NotModelled"
proof (cases r)
  case (Inl e)
  then show ?thesis by (cases e) (simp_all add: raises_def)
next
  case (Inr x)
  then show ?thesis by (simp add: raises_def)
qed

lemma columns_named_distinct: "distinct (map fst df) \<Longrightarrow> length (columns_named df n) \<le> 1"
proof (induction df)
  case Nil
  then show ?case by (simp add: columns_named_def)
next
  case (Cons p df)
  show ?case
  proof (cases "fst p = n")
    case True
    with Cons.prems have "n \<notin> fst ` set df" by auto
    then have "columns_named df n = []" by (simp add: columns_named_Nil_iff)
    then show ?thesis using True by (simp add: columns_named_def)
  next
    case False
    with Cons show ?thesis by (simp add: columns_named_def)
  qed
qed

lemma getitem_distinct: "distinct (map fst df) \<Longrightarrow> getitem df n \<noteq> Inl NotModelled"
  using columns_named_distinct[of df n]
  by (auto simp: getitem_def split: list.splits)

lemma str_accessor_distinct: "distinct (map fst df) \<Longrightarrow> str_accessor df n \<noteq> Inl NotModelled"
  using getitem_distinct[of df n]
  by (auto simp: str_accessor_def split: sum.splits column.splits)

lemma map_text_column_distinct:
  "distinct (map fst df) \<Longrightarrow> map_text_column n f df \<noteq> Inl NotModelled"
  using str_accessor_distinct[of df n]
  by (cases "str_accessor df n") (simp_all add: map_text_column_def)

lemma to_numeric_Int64_text: "to_numeric_Int64 (TextCol xs) \<noteq> Inl NotModelled"
  by (simp add: to_numeric_Int64_def Let_def)

lemma clean_and_convert_numerical_distinct:
  assumes "distinct (map fst df)"
  shows "clean_and_convert_numerical rd df \<noteq> Inl NotModelled"
proof (cases "str_accessor df ''customer_lifetime_value''")
  case (Inl e)
  with str_accessor_distinct[OF assms, of "''customer_lifetime_value''"] show ?thesis
    by (simp add: clean_and_convert_numerical_def)
next
  case (Inr xs)
  then have g: "getitem df ''customer_lifetime_value'' = Inr (TextCol xs)"
    by (simp add: str_accessor_Inr_iff)
  let ?f = "FloatCol (map (\<lambda>x. case x of None \<Rightarrow> None | Some s \<Rightarrow> rd (str_rstrip CHR ''%'' s)) xs)"
  let ?df2 = "setitem df ''customer_lifetime_value'' ?f"
  have d2: "distinct (map fst ?df2)"
    using assms setitem_frame(1)[OF g] by simp
  have step1: "clean_and_convert_numerical rd df =
      and_then (str_accessor ?df2 ''number_of_open_complaints'') (\<lambda>ys.
        let df3 = setitem ?df2 ''number_of_open_complaints''
                    (TextCol (map (\<lambda>y. case y of None \<Rightarrow> None | Some s \<Rightarrow> str_extract_token s) ys))
        in and_then (getitem df3 ''number_of_open_complaints'') (\<lambda>d.
             and_then (to_numeric_Int64 d) (\<lambda>d'.
               Inr (setitem df3 ''number_of_open_complaints'' d'))))"
    using g
    by (simp add: clean_and_convert_numerical_def str_accessor_def getitem_setitem_same
        to_numeric_float_def setitem_setitem Let_def case_option_comp_map_option)
  show ?thesis
  proof (cases "str_accessor ?df2 ''number_of_open_complaints''")
    case (Inl e)
    with str_accessor_distinct[OF d2, of "''number_of_open_complaints''"] show ?thesis
      by (simp add: step1)
  next
    case ys: (Inr ys)
    then have h: "getitem ?df2 ''number_of_open_complaints'' = Inr (TextCol ys)"
      by (simp add: str_accessor_Inr_iff)
    let ?t = "TextCol (map (\<lambda>y. case y of None \<Rightarrow> None | Some s \<Rightarrow> str_extract_token s) ys)"
    show ?thesis
      using to_numeric_Int64_text[of "map (\<lambda>y. case y of None \<Rightarrow> None | Some s \<Rightarrow> str_extract_token s) ys"]
      by (cases "to_numeric_Int64 ?t")
         (simp_all add: step1 ys Let_def getitem_setitem_same[OF h])
  qed
qed

lemma fillna_median_inside: "fillna_median c \<noteq> Inl NotModelled"
  by (cases c) (simp_all add: fillna_median_def split: option.splits)

lemma fillna_text_inside:
  "(\<forall>xs. c = FloatCol xs \<longrightarrow> None \<notin> set xs) \<Longrightarrow> fillna_text v c \<noteq> Inl NotModelled"
  by (cases c) (auto simp: fillna_text_def list_ex_iff)

lemma fill_columns_inside:
  assumes "distinct (map fst df)" and "distinct ns"
    and "\<forall>n\<in>set ns. \<forall>c. getitem df n = Inr c \<longrightarrow> f c \<noteq> Inl NotModelled"
  shows "fill_columns f ns df \<noteq> Inl NotModelled"
  using assms
proof (induction ns arbitrary: df)
  case Nil
  then show ?case by simp
next
  case (Cons k ns)
  show ?case
  proof (cases "getitem df k")
    case (Inl e)
    with getitem_distinct[OF Cons.prems(1), of k] show ?thesis by simp
  next
    case (Inr c)
    show ?thesis
    proof (cases "f c")
      case (Inl e)
      with Cons.prems(3) Inr show ?thesis by auto
    next
      case c': (Inr c')
      from Cons.prems(2) have d: "distinct ns" and k: "k \<notin> set ns" by simp_all
      have l: "distinct (map fst (setitem df k c'))"
        using Cons.prems(1) setitem_frame(1)[OF Inr] by simp
      have "\<forall>n\<in>set ns. \<forall>c. getitem (setitem df k c') n = Inr c \<longrightarrow> f c \<noteq> Inl NotModelled"
      proof (intro ballI allI impI)
        fix n d assume n: "n \<in> set ns" and g: "getitem (setitem df k c') n = Inr d"
        from n k have "n \<noteq> k" by blast
        then have "getitem (setitem df k c') n = getitem df n" by (rule getitem_setitem_other)
        with g Cons.prems(3) n show "f d \<noteq> Inl NotModelled" by simp
      qed
      from Cons.IH[OF l d this] Inr c' show ?thesis by simp
    qed
  qed
qed

lemma handle_missing_values_inside:
  assumes "within_model df"
  shows "handle_missing_values df \<noteq> Inl NotModelled"
proof -
  from assms have d: "distinct (map fst df)"
    and h: "\<forall>n\<in>set categorical_cols. \<forall>xs. getitem df n = Inr (FloatCol xs) \<longrightarrow> None \<notin> set xs"
    by (simp_all add: within_model_def)
  have a: "fill_columns (fillna_text ''Unknown'') categorical_cols df \<noteq> Inl NotModelled"
    using d cols_distinct(1)
  proof (rule fill_columns_inside)
    show "\<forall>n\<in>set categorical_cols. \<forall>c. getitem df n = Inr c \<longrightarrow>
            fillna_text ''Unknown'' c \<noteq> Inl NotModelled"
      using h by (auto intro!: fillna_text_inside)
  qed
  show ?thesis
  proof (cases "fill_columns (fillna_text ''Unknown'') categorical_cols df")
    case (Inl e)
    with a show ?thesis by (simp add: handle_missing_values_def)
  next
    case df1: (Inr df1)
    from fill_columns_frame[OF df1] d have d1: "distinct (map fst df1)" by simp
    have b: "fill_columns fillna_median numerical_cols df1 \<noteq> Inl NotModelled"
      using d1 cols_distinct(2) by (rule fill_columns_inside) (simp add: fillna_median_inside)
    show ?thesis
    proof (cases "fill_columns fillna_median numerical_cols df1")
      case (Inl e)
      with b df1 show ?thesis by (simp add: handle_missing_values_def)
    next
      case df2: (Inr df2)
      from fill_columns_frame[OF df2] d1 have d2: "distinct (map fst df2)" by simp
      from columns_named_distinct[OF d2, of "''complaints_missing''"]
      have m: "\<not> 1 < length (columns_named df2 ''complaints_missing'')" by simp
      show ?thesis
        using getitem_distinct[OF d2, of "''number_of_open_complaints''"] m
        by (cases "getitem df2 ''number_of_open_complaints''")
           (simp_all add: handle_missing_values_def df1 df2)
    qed
  qed
qed

lemma within_model_setitem:
  assumes "within_model df" and "getitem df n = Inr c0"
    and "n \<in> set categorical_cols \<longrightarrow> (\<forall>xs. c = FloatCol xs \<longrightarrow> None \<notin> set xs)"
  shows "within_model (setitem df n c)"
proof -
  have "distinct (map fst (setitem df n c))"
    using assms(1) setitem_frame(1)[OF assms(2)] by (simp add: within_model_def)
  moreover have "None \<notin> set xs"
    if "m \<in> set categorical_cols" and "getitem (setitem df n c) m = Inr (FloatCol xs)" for m xs
  proof (cases "m = n")
    case True
    with that getitem_setitem_same[OF assms(2), of c] assms(3) show ?thesis by simp
  next
    case False
    then have "getitem (setitem df n c) m = getitem df m" by (rule getitem_setitem_other)
    with that assms(1) show ?thesis by (auto simp: within_model_def)
  qed
  ultimately show ?thesis by (auto simp: within_model_def)
qed

lemma map_text_column_within_model:
  assumes "within_model df" and "map_text_column n f df = Inr df'"
  shows "within_model df'"
proof -
  from assms(2) obtain xs where g: "getitem df n = Inr (TextCol xs)"
    and d: "df' = setitem df n (TextCol (map f xs))"
    by (auto simp: map_text_column_Inr_iff)
  show ?thesis unfolding d using assms(1) g by (rule within_model_setitem) simp
qed

lemma clean_and_convert_numerical_within_model:
  assumes "within_model df" and "clean_and_convert_numerical rd df = Inr df'"
  shows "within_model df'"
proof -
  from assms(2) obtain xs ys d' c' where
    x: "getitem df ''customer_lifetime_value'' = Inr (TextCol xs)" and
    y: "getitem df ''number_of_open_complaints'' = Inr (TextCol ys)" and
    d: "df' = setitem (setitem df ''customer_lifetime_value'' c') ''number_of_open_complaints'' d'"
    by (auto simp: clean_and_convert_numerical_Inr_iff)
  have 1: "within_model (setitem df ''customer_lifetime_value'' c')"
    using assms(1) x by (rule within_model_setitem) (simp add: categorical_cols_def)
  have "getitem (setitem df ''customer_lifetime_value'' c') ''number_of_open_complaints'' = Inr (TextCol ys)"
    using y by (simp add: getitem_setitem_other)
  with 1 show ?thesis unfolding d
    by (rule within_model_setitem) (simp add: categorical_cols_def)
qed

lemma main_cleaning_pipeline_inside:
  assumes n: "clean_column_names df = Inr df1" and w: "within_model df1"
  shows "main_cleaning_pipeline rd df \<noteq> Inl NotModelled"
proof -
  note eqs = standardize_gender_eq standardize_state_eq standardize_education_eq
    standardize_vehicle_class_eq
  have d: "within_model x \<Longrightarrow> distinct (map fst x)" for x by (simp add: within_model_def)
  show ?thesis
  proof (cases "standardize_gender df1")
    case (Inl e)
    with map_text_column_distinct[OF d[OF w], of "''gender''" gender_cell] show ?thesis
      by (simp add: main_cleaning_pipeline_def n eqs)
  next
    case s2: (Inr df2)
    from map_text_column_within_model[OF w s2[unfolded eqs]] have w2: "within_model df2" .
    show ?thesis
    proof (cases "standardize_state df2")
      case (Inl e)
      with map_text_column_distinct[OF d[OF w2], of "''state''" state_cell] show ?thesis
        by (simp add: main_cleaning_pipeline_def n s2) (simp add: eqs)
    next
      case s3: (Inr df3)
      from map_text_column_within_model[OF w2 s3[unfolded eqs]] have w3: "within_model df3" .
      show ?thesis
      proof (cases "standardize_education df3")
        case (Inl e)
        with map_text_column_distinct[OF d[OF w3], of "''education''" education_cell] show ?thesis
          by (simp add: main_cleaning_pipeline_def n s2 s3) (simp add: eqs)
      next
        case s4: (Inr df4)
        from map_text_column_within_model[OF w3 s4[unfolded eqs]] have w4: "within_model df4" .
        show ?thesis
        proof (cases "standardize_vehicle_class df4")
          case (Inl e)
          with map_text_column_distinct[OF d[OF w4], of "''vehicle_class''" vehicle_cell] show ?thesis
            by (simp add: main_cleaning_pipeline_def n s2 s3 s4) (simp add: eqs)
        next
          case s5: (Inr df5)
          from map_text_column_within_model[OF w4 s5[unfolded eqs]] have w5: "within_model df5" .
          show ?thesis
          proof (cases "clean_and_convert_numerical rd df5")
            case (Inl e)
            with clean_and_convert_numerical_distinct[OF d[OF w5], of rd] show ?thesis
              by (simp add: main_cleaning_pipeline_def n s2 s3 s4 s5)
          next
            case s6: (Inr df6)
            from clean_and_convert_numerical_within_model[OF w5 s6] have "within_model df6" .
            from handle_missing_values_inside[OF this] show ?thesis
              by (simp add: main_cleaning_pipeline_def n s2 s3 s4 s5 s6)
          qed
        qed
      qed
    qed
  qed
qed

lemma clean_and_convert_numerical_KeyError:
  "''customer_lifetime_value'' \<notin> fst ` set df \<Longrightarrow>
     clean_and_convert_numerical rd df = Inl KeyError"
  by (simp add: clean_and_convert_numerical_def str_accessor_def getitem_KeyError_iff[symmetric])

lemma clean_and_convert_numerical_raises:
  assumes "distinct (map fst df)"
    and "''customer_lifetime_value'' \<notin> fst ` set df \<or> ''number_of_open_complaints'' \<notin> fst ` set df"
  shows "raises (clean_and_convert_numerical rd df)"
  using clean_and_convert_numerical_missing[OF assms(2), of rd]
    clean_and_convert_numerical_distinct[OF assms(1), of rd]
  by (simp add: raises_iff)

lemma handle_missing_values_raises:
  assumes "within_model df"
    and "n \<in> insert ''number_of_open_complaints'' (set categorical_cols \<union> set numerical_cols)"
    and "n \<notin> fst ` set df"
  shows "raises (handle_missing_values df)"
  using handle_missing_values_missing[OF assms(2,3)] handle_missing_values_inside[OF assms(1)]
  by (simp add: raises_iff)

lemma main_cleaning_pipeline_raises:
  assumes "clean_column_names df = Inr df1" and "within_model df1"
    and "n \<in> insert ''number_of_open_complaints'' (set categorical_cols \<union> set numerical_cols)"
    and "n \<notin> fst ` set df1"
  shows "raises (main_cleaning_pipeline rd df)"
  using main_cleaning_pipeline_missing[OF assms(1,3,4), of rd]
    main_cleaning_pipeline_inside[OF assms(1,2), of rd]
  by (simp add: raises_iff)

lemma clean_column_names_frame_cases:
  "\<exists>df1. clean_column_names_frame (TextFrame df) = Inr df1"
  "clean_column_names_frame (IntegerFrame cs) = Inl AttributeError"
  by (simp_all add: clean_column_names_frame_def clean_column_names_def)

section \<open>Idempotence\<close>

lemma char_lower_idem: "char_lower (char_lower c) = char_lower c"
proof (cases "map_of lower_table c")
  case None
  then show ?thesis by (simp add: char_lower_def)
next
  case (Some d)
  then have "(c, d) \<in> set lower_table" by (rule map_of_SomeD)
  then have "d \<in> set ''abcdefghijklmnopqrstuvwxyz''"
    unfolding lower_table_def by (rule set_zip_rightD)
  moreover have "\<forall>d\<in>set ''abcdefghijklmnopqrstuvwxyz''. map_of lower_table d = None"
    by (simp add: lower_table_def)
  ultimately have "map_of lower_table d = None" by blast
  with Some show ?thesis by (simp add: char_lower_def)
qed

lemma char_upper_idem: "char_upper (char_upper c) = char_upper c"
proof (cases "map_of upper_table c")
  case None
  then show ?thesis by (simp add: char_upper_def)
next
  case (Some d)
  then have "(c, d) \<in> set upper_table" by (rule map_of_SomeD)
  then have "d \<in> set ''ABCDEFGHIJKLMNOPQRSTUVWXYZ''"
    unfolding upper_table_def by (rule set_zip_rightD)
  moreover have "\<forall>d\<in>set ''ABCDEFGHIJKLMNOPQRSTUVWXYZ''. map_of upper_table d = None"
    by (simp add: upper_table_def)
  ultimately have "map_of upper_table d = None" by blast
  with Some show ?thesis by (simp add: char_upper_def)
qed

lemma char_lower_not_space: "char_lower c = CHR '' '' \<longleftrightarrow> c = CHR '' ''"
proof (cases "map_of lower_table c")
  case None
  then show ?thesis by (simp add: char_lower_def)
next
  case (Some d)
  then have m: "(c, d) \<in> set lower_table" by (rule map_of_SomeD)
  then have "d \<in> set ''abcdefghijklmnopqrstuvwxyz''"
    unfolding lower_table_def by (rule set_zip_rightD)
  then have d: "d \<noteq> CHR '' ''" by auto
  from m have "c \<in> set ''ABCDEFGHIJKLMNOPQRSTUVWXYZ''"
    unfolding lower_table_def by (rule set_zip_leftD)
  then have "c \<noteq> CHR '' ''" by auto
  with d Some show ?thesis by (simp add: char_lower_def)
qed

lemma char_lower_underscore: "char_lower CHR ''_'' = CHR ''_''"
  by (simp add: char_lower_def lower_table_def)

lemma normal_label_fixed:
  "str_replace_space (str_lower (str_replace_space (str_lower n))) = str_replace_space (str_lower n)"
  by (induction n)
    (auto simp: str_replace_space_def str_lower_def char_lower_idem char_lower_not_space
      char_lower_underscore)

lemma rename_label_cases:
  "rename_label n = (if n = ''st'' then ''state'' else if n = ''income'' then ''customer_income'' else n)"
  by (simp add: rename_label_def)

lemma clean_label_idem: "clean_label (clean_label n) = clean_label n"
proof -
  let ?m = "str_replace_space (str_lower n)"
  have fixed: "str_replace_space (str_lower ?m) = ?m" by (rule normal_label_fixed)
  have s: "str_replace_space (str_lower ''state'') = ''state''"
    "str_replace_space (str_lower ''customer_income'') = ''customer_income''"
    by (simp_all add: str_replace_space_def str_lower_def char_lower_def lower_table_def)
  show ?thesis
    unfolding clean_label_def
    by (cases "?m = ''st''"; cases "?m = ''income''")
      (simp_all add: rename_label_cases[of ?m] fixed s rename_label_def)
qed

lemma clean_column_names_eq: "clean_column_names df = Inr (map_labels clean_label df)"
  by (simp add: clean_column_names_def map_labels_def clean_label_def[abs_def] comp_def)

lemma clean_column_names_idem:
  "clean_column_names df = Inr df' \<Longrightarrow> clean_column_names df' = Inr df'"
  by (auto simp: clean_column_names_eq map_labels_def clean_label_idem)

lemma getitem_complaints_flag:
  assumes "length (columns_named df n) \<le> 1"
  shows "length (columns_named (setitem df n c) n) \<le> 1"
  using assms by (auto simp: columns_named_setitem_same)

lemma handle_missing_values_idem:
  assumes "handle_missing_values df = Inr df'"
  shows "handle_missing_values df' = Inr df'"
proof -
  let ?cm = "''complaints_missing''" and ?noc = "''number_of_open_complaints''"
  from assms obtain df1 df2 c where
    a: "fill_columns (fillna_text ''Unknown'') categorical_cols df = Inr df1" and
    b: "fill_columns fillna_median numerical_cols df1 = Inr df2" and
    c: "getitem df2 ?noc = Inr c" and
    l: "length (columns_named df2 ?cm) \<le> 1" and
    d: "df' = setitem df2 ?cm (BoolCol (isnull c))"
    by (auto simp: handle_missing_values_Inr_iff)
  have other: "getitem df' n = getitem df2 n" if "n \<noteq> ?cm" for n
    unfolding d using that by (rule getitem_setitem_other)
  have cat: "\<forall>n\<in>set categorical_cols. \<exists>k. getitem df' n = Inr k \<and> fillna_text ''Unknown'' k = Inr k"
  proof
    fix n assume n: "n \<in> set categorical_cols"
    from fill_columns_result[OF cols_distinct(1) a n] obtain k k' where
      k: "fillna_text ''Unknown'' k = Inr k'" "getitem df1 n = Inr k'" by blast
    from n cols_distinct(3) have "n \<notin> set numerical_cols" by blast
    with fill_columns_frame[OF b] have "getitem df2 n = getitem df1 n" by blast
    moreover from n cols_distinct(6) have "n \<noteq> ?cm" by blast
    ultimately have "getitem df' n = Inr k'" using k(2) other by simp
    with fillna_text_idem[OF k(1)]
    show "\<exists>k. getitem df' n = Inr k \<and> fillna_text ''Unknown'' k = Inr k" by blast
  qed
  have num: "\<forall>n\<in>set numerical_cols. \<exists>k. getitem df' n = Inr k \<and> fillna_median k = Inr k"
  proof
    fix n assume n: "n \<in> set numerical_cols"
    from fill_columns_result[OF cols_distinct(2) b n] obtain k k' where
      k: "fillna_median k = Inr k'" "getitem df2 n = Inr k'" by blast
    from n cols_distinct(7) have "n \<noteq> ?cm" by blast
    then have "getitem df' n = Inr k'" using k(2) other by simp
    with fillna_median_idem[OF k(1)]
    show "\<exists>k. getitem df' n = Inr k \<and> fillna_median k = Inr k" by blast
  qed
  have a': "fill_columns (fillna_text ''Unknown'') categorical_cols df' = Inr df'"
    using cat by (rule fill_columns_fixed)
  have b': "fill_columns fillna_median numerical_cols df' = Inr df'"
    using num by (rule fill_columns_fixed)
  have c': "getitem df' ?noc = Inr c" using other[of ?noc] c by simp
  have l': "length (columns_named df' ?cm) \<le> 1"
    unfolding d using l by (rule getitem_complaints_flag)
  have "df' = setitem df' ?cm (BoolCol (isnull c))"
    unfolding d by (simp add: setitem_setitem)
  with a' b' c' l' show ?thesis
    unfolding handle_missing_values_Inr_iff by blast
qed

lemma clean_and_convert_numerical_twice:
  assumes "clean_and_convert_numerical rd df = Inr df'"
  shows "clean_and_convert_numerical rd df' = Inl AttributeError"
proof -
  from assms obtain xs c' d' where
    x: "getitem df ''customer_lifetime_value'' = Inr (TextCol xs)" and
    d: "df' = setitem (setitem df ''customer_lifetime_value'' (FloatCol c'))
               ''number_of_open_complaints'' d'"
    by (auto simp: clean_and_convert_numerical_Inr_iff)
  have "getitem df' ''customer_lifetime_value'' = Inr (FloatCol c')"
    unfolding d using x by (simp add: getitem_setitem_other getitem_setitem_same)
  then show ?thesis
    by (simp add: clean_and_convert_numerical_def str_accessor_def)
qed

lemma cell_idems:
  "gender_cell (gender_cell x) = gender_cell x"
  "education_cell (education_cell x) = education_cell x"
  "vehicle_cell (vehicle_cell x) = vehicle_cell x"
  by (auto simp: gender_cell_def education_cell_def vehicle_cell_def Let_def
      starts_with_class_def contains_word_def is_word_char_def split: option.splits list.splits)

lemma char_upper_capital:
  "\<forall>c\<in>set ''ABCDEFGHIJKLMNOPQRSTUVWXYZ ''. char_upper c = c"
  by (simp add: char_upper_def upper_table_def)

lemma state_names_capital:
  "\<forall>p\<in>set state_mapping. set (snd p) \<subseteq> set ''ABCDEFGHIJKLMNOPQRSTUVWXYZ ''"
  by (simp add: state_mapping_def)

lemma state_names_long:
  "\<forall>p\<in>set state_mapping. 4 \<le> length (snd p) \<and> snd p \<noteq> ''CALI''"
  by (simp add: state_mapping_def)

lemma state_keys_short:
  "\<forall>p\<in>set state_mapping. length (fst p) < 4 \<or> fst p = ''CALI''"
  by (simp add: state_mapping_def)

lemma state_names_upper:
  assumes "p \<in> set state_mapping"
  shows "str_upper (snd p) = snd p \<and> map_of state_mapping (snd p) = None"
proof
  from assms state_names_capital have "\<forall>c\<in>set (snd p). char_upper c = c"
    using char_upper_capital by blast
  then show "str_upper (snd p) = snd p"
    unfolding str_upper_def by (simp add: map_idI)
  show "map_of state_mapping (snd p) = None"
  proof (rule ccontr)
    assume "map_of state_mapping (snd p) \<noteq> None"
    then obtain v where "map_of state_mapping (snd p) = Some v" by blast
    then have "(snd p, v) \<in> set state_mapping" by (rule map_of_SomeD)
    with state_keys_short have "length (snd p) < 4 \<or> snd p = ''CALI''" by fastforce
    with state_names_long assms show False by fastforce
  qed
qed

lemma str_upper_idem: "str_upper (str_upper s) = str_upper s"
  by (simp add: str_upper_def char_upper_idem)

lemma state_cell_idem: "state_cell (state_cell x) = state_cell x"
proof (cases x)
  case None
  then show ?thesis by (simp add: state_cell_def)
next
  case (Some v)
  show ?thesis
  proof (cases "map_of state_mapping (str_upper v)")
    case None
    then show ?thesis using Some by (simp add: state_cell_def replace_cell_def str_upper_idem)
  next
    case full: (Some full)
    then have "(str_upper v, full) \<in> set state_mapping" by (rule map_of_SomeD)
    from state_names_upper[OF this]
    have "str_upper full = full \<and> map_of state_mapping full = None" by simp
    with full Some show ?thesis by (simp add: state_cell_def replace_cell_def)
  qed
qed

section \<open>Stripping and token extraction\<close>

lemma dropWhile_eq_decompose:
  "\<exists>k. xs = replicate k ch @ dropWhile (\<lambda>c. c = ch) xs \<and>
       (dropWhile (\<lambda>c. c = ch) xs = [] \<or> hd (dropWhile (\<lambda>c. c = ch) xs) \<noteq> ch)"
proof (induction xs)
  case Nil
  then show ?case by simp
next
  case (Cons x xs)
  show ?case
  proof (cases "x = ch")
    case True
    from Cons obtain k where "xs = replicate k ch @ dropWhile (\<lambda>c. c = ch) xs"
      and h: "dropWhile (\<lambda>c. c = ch) xs = [] \<or> hd (dropWhile (\<lambda>c. c = ch) xs) \<noteq> ch" by blast
    then have "x # xs = replicate (Suc k) ch @ dropWhile (\<lambda>c. c = ch) (x # xs)"
      using True by simp
    with h True show ?thesis by (intro exI[of _ "Suc k"]) simp
  next
    case False
    then show ?thesis by (intro exI[of _ 0]) simp
  qed
qed

lemma str_rstrip_decompose:
  "\<exists>k. s = str_rstrip ch s @ replicate k ch \<and>
       (str_rstrip ch s = [] \<or> last (str_rstrip ch s) \<noteq> ch)"
proof -
  let ?d = "dropWhile (\<lambda>c. c = ch) (rev s)"
  from dropWhile_eq_decompose[of "rev s" ch] obtain k where
    a: "rev s = replicate k ch @ ?d" and b: "?d = [] \<or> hd ?d \<noteq> ch" by blast
  from a have "rev (rev s) = rev (replicate k ch @ ?d)" by (rule arg_cong)
  then have "s = rev ?d @ replicate k ch" by simp
  moreover from b have "rev ?d = [] \<or> last (rev ?d) \<noteq> ch"
    by (cases ?d) simp_all
  ultimately show ?thesis unfolding str_rstrip_def by blast
qed

lemma not_digit_slash: "\<not> is_digit CHR ''/''"
  by (simp add: is_digit_def)

lemma token_at_head:
  "(takeWhile is_digit cs \<noteq> [] \<and>
      (case dropWhile is_digit cs of [] \<Rightarrow> False | d # _ \<Rightarrow> d = CHR ''/''))
   \<longleftrightarrow> (\<exists>t post. cs = t @ CHR ''/'' # post \<and> t \<noteq> [] \<and> list_all is_digit t)"
  (is "?L \<longleftrightarrow> ?R")
proof
  assume l: ?L
  then obtain post where "dropWhile is_digit cs = CHR ''/'' # post"
    by (auto split: list.splits)
  then have "cs = takeWhile is_digit cs @ CHR ''/'' # post"
    by (metis takeWhile_dropWhile_id)
  moreover have "list_all is_digit (takeWhile is_digit cs)"
    by (simp add: list_all_iff) (meson set_takeWhileD)
  ultimately show ?R using l by blast
next
  assume ?R
  then obtain t post where c: "cs = t @ CHR ''/'' # post" and t: "t \<noteq> []" "list_all is_digit t"
    by blast
  from t(2) have "takeWhile is_digit cs = t" "dropWhile is_digit cs = CHR ''/'' # post"
    unfolding c by (simp_all add: list_all_iff not_digit_slash)
  with t show ?L by simp
qed

lemma token_at_head_unique:
  assumes "cs = t @ CHR ''/'' # post" and "list_all is_digit t"
  shows "takeWhile is_digit cs = t"
  using assms by (simp add: list_all_iff not_digit_slash)

lemma slash_token_at_Cons:
  "slash_token_at pre t post (c # cs) \<longleftrightarrow>
     (pre = [] \<and> c = CHR ''/'' \<and> cs = t @ CHR ''/'' # post \<and> t \<noteq> [] \<and> list_all is_digit t) \<or>
     (\<exists>pre'. pre = c # pre' \<and> slash_token_at pre' t post cs)"
  by (cases pre) (auto simp: slash_token_at_def)

lemma str_extract_token_None_iff:
  "str_extract_token s = None \<longleftrightarrow> (\<forall>pre t post. \<not> slash_token_at pre t post s)"
proof (induction s)
  case Nil
  then show ?case by (simp add: slash_token_at_def)
next
  case (Cons c cs)
  show ?case
  proof (cases "c = CHR ''/'' \<and> (\<exists>t post. cs = t @ CHR ''/'' # post \<and> t \<noteq> [] \<and> list_all is_digit t)")
    case True
    then obtain t post where "slash_token_at [] t post (c # cs)"
      by (auto simp: slash_token_at_Cons)
    moreover from True have "str_extract_token (c # cs) \<noteq> None"
      using token_at_head[of cs] by simp
    ultimately show ?thesis by blast
  next
    case False
    then have "str_extract_token (c # cs) = str_extract_token cs"
      using token_at_head[of cs] by auto
    moreover from False have "(\<forall>pre t post. \<not> slash_token_at pre t post (c # cs)) \<longleftrightarrow>
        (\<forall>pre t post. \<not> slash_token_at pre t post cs)"
      by (auto simp: slash_token_at_Cons)
    ultimately show ?thesis using Cons.IH by simp
  qed
qed

lemma str_extract_token_Some:
  assumes "str_extract_token s = Some t"
  shows "\<exists>pre post. slash_token_at pre t post s \<and>
           (\<forall>pre' t' post'. slash_token_at pre' t' post' s \<longrightarrow>
              length pre \<le> length pre' \<and> (length pre' = length pre \<longrightarrow> t' = t))"
  using assms
proof (induction s)
  case Nil
  then show ?case by simp
next
  case (Cons c cs)
  let ?here = "c = CHR ''/'' \<and> (\<exists>t post. cs = t @ CHR ''/'' # post \<and> t \<noteq> [] \<and> list_all is_digit t)"
  show ?case
  proof (cases ?here)
    case True
    then obtain t0 post where c: "cs = t0 @ CHR ''/'' # post" "t0 \<noteq> []" "list_all is_digit t0"
      by blast
    have tk: "takeWhile is_digit cs = t0" using c(1) c(3) by (rule token_at_head_unique)
    have "takeWhile is_digit cs \<noteq> [] \<and>
      (case dropWhile is_digit cs of [] \<Rightarrow> False | d # _ \<Rightarrow> d = CHR ''/'')"
      using token_at_head[of cs] c by blast
    then have "str_extract_token (c # cs) = Some (takeWhile is_digit cs)"
      using True by simp
    with Cons.prems tk have t: "t = t0" by simp
    have first: "slash_token_at [] t post (c # cs)"
      unfolding slash_token_at_def using True c t by simp
    have least: "length ([] :: string) \<le> length pre' \<and> (length pre' = length ([] :: string) \<longrightarrow> t' = t)"
      if d: "slash_token_at pre' t' post' (c # cs)" for pre' t' post'
    proof (cases pre')
      case Nil
      with d have "cs = t' @ CHR ''/'' # post'" "list_all is_digit t'"
        by (simp_all add: slash_token_at_def)
      then have "takeWhile is_digit cs = t'" by (rule token_at_head_unique)
      with tk t show ?thesis by simp
    next
      case (Cons a as)
      then show ?thesis by simp
    qed
    from first least show ?thesis by blast
  next
    case False
    then have "\<not> (c = CHR ''/'' \<and> takeWhile is_digit cs \<noteq> [] \<and>
      (case dropWhile is_digit cs of [] \<Rightarrow> False | d # _ \<Rightarrow> d = CHR ''/''))"
      using token_at_head[of cs] by blast
    then have "str_extract_token (c # cs) = str_extract_token cs"
      by (simp only: str_extract_token.simps if_False)
    with Cons.prems have "str_extract_token cs = Some t" by (simp only:)
    from Cons.IH[OF this] obtain pre post where p: "slash_token_at pre t post cs"
      and m: "\<And>pre' t' post'. slash_token_at pre' t' post' cs \<Longrightarrow>
              length pre \<le> length pre' \<and> (length pre' = length pre \<longrightarrow> t' = t)"
      by blast
    have first: "slash_token_at (c # pre) t post (c # cs)"
      using p by (simp add: slash_token_at_def)
    have least: "length (c # pre) \<le> length pre' \<and> (length pre' = length (c # pre) \<longrightarrow> t' = t)"
      if d: "slash_token_at pre' t' post' (c # cs)" for pre' t' post'
    proof (cases pre')
      case Nil
      with d have "c = CHR ''/''" "cs = t' @ CHR ''/'' # post'" "t' \<noteq> []" "list_all is_digit t'"
        by (simp_all add: slash_token_at_def)
      with False show ?thesis by blast
    next
      case (Cons a as)
      with d have "slash_token_at as t' post' cs" by (simp add: slash_token_at_def)
      from m[OF this] Cons show ?thesis by simp
    qed
    from first least show ?thesis by blast
  qed
qed

section \<open>The cast to Int64\<close>

lemma float64_of_nat_small: "n \<le> 2 ^ 53 \<Longrightarrow> float64_of_nat n = n"
  by (simp add: float64_of_nat_def)

lemma to_numeric_Int64_small:
  assumes "\<forall>t. Some t \<in> set ts \<longrightarrow> nat_of_digits t \<le> 2 ^ 53"
  shows "to_numeric_Int64 (TextCol ts) =
           Inr (IntCol (map (map_option (\<lambda>t. int (nat_of_digits t))) ts))"
proof -
  let ?vs = "map (map_option nat_of_digits) ts"
  have small: "n \<le> 2 ^ 53" if "Some n \<in> set ?vs" for n
  proof -
    from that obtain x where x: "x \<in> set ts" "Some n = map_option nat_of_digits x" by auto
    from x(2) obtain t where "x = Some t" "n = nat_of_digits t" by (cases x) auto
    with x assms show ?thesis by blast
  qed
  have le: "(2::nat) ^ 53 \<le> INT64_MAX" by (simp add: INT64_MAX_def)
  have a: "\<not> list_ex (\<lambda>v. case v of None \<Rightarrow> False | Some n \<Rightarrow> INT64_MAX < n) ?vs"
  proof
    assume "list_ex (\<lambda>v. case v of None \<Rightarrow> False | Some n \<Rightarrow> INT64_MAX < n) ?vs"
    then obtain v where v: "v \<in> set ?vs"
      "case v of None \<Rightarrow> False | Some n \<Rightarrow> INT64_MAX < n"
      unfolding list_ex_iff by blast
    from v(2) obtain n where "v = Some n" "INT64_MAX < n" by (cases v) auto
    with v(1) small[of n] le show False by simp
  qed
  have f: "map (map_option float64_of_nat) ?vs = ?vs"
  proof (rule map_idI)
    fix v assume v: "v \<in> set ?vs"
    show "map_option float64_of_nat v = v"
    proof (cases v)
      case None
      then show ?thesis by simp
    next
      case (Some n)
      with v small[of n] show ?thesis by (simp add: float64_of_nat_small)
    qed
  qed
  have r: "map (map_option int) ?vs = map (map_option (\<lambda>t. int (nat_of_digits t))) ts"
    by (simp add: option.map_comp comp_def)
  show ?thesis
    unfolding to_numeric_Int64_def column.case Let_def f
    using a r by (simp only: if_False if_True if_cancel split: if_splits)
qed

lemma clean_and_convert_numerical_columns:
  assumes "clean_and_convert_numerical rd df = Inr df'"
  shows "\<exists>xs ys d'.
     getitem df ''customer_lifetime_value'' = Inr (TextCol xs) \<and>
     getitem df ''number_of_open_complaints'' = Inr (TextCol ys) \<and>
     to_numeric_Int64
       (TextCol (map (\<lambda>y. case y of None \<Rightarrow> None | Some s \<Rightarrow> str_extract_token s) ys)) = Inr d' \<and>
     getitem df' ''customer_lifetime_value'' =
       Inr (FloatCol (map (\<lambda>x. case x of None \<Rightarrow> None
                                 | Some s \<Rightarrow> rd (str_rstrip CHR ''%'' s)) xs)) \<and>
     getitem df' ''number_of_open_complaints'' = Inr d'"
proof -
  from assms obtain xs ys d' where
    x: "getitem df ''customer_lifetime_value'' = Inr (TextCol xs)" and
    y: "getitem df ''number_of_open_complaints'' = Inr (TextCol ys)" and
    t: "to_numeric_Int64
          (TextCol (map (\<lambda>y. case y of None \<Rightarrow> None | Some s \<Rightarrow> str_extract_token s) ys)) = Inr d'" and
    d: "df' = setitem
                (setitem df ''customer_lifetime_value''
                   (FloatCol (map (\<lambda>x. case x of None \<Rightarrow> None
                                          | Some s \<Rightarrow> rd (str_rstrip CHR ''%'' s)) xs)))
                ''number_of_open_complaints'' d'"
    unfolding clean_and_convert_numerical_Inr_iff by blast
  let ?F = "FloatCol (map (\<lambda>x. case x of None \<Rightarrow> None | Some s \<Rightarrow> rd (str_rstrip CHR ''%'' s)) xs)"
  let ?df2 = "setitem df ''customer_lifetime_value'' ?F"
  have f: "getitem ?df2 ''customer_lifetime_value'' = Inr ?F"
    using x by (rule getitem_setitem_same)
  have n: "getitem ?df2 ''number_of_open_complaints'' = Inr (TextCol ys)"
    using y by (simp add: getitem_setitem_other)
  have "getitem df' ''customer_lifetime_value'' = Inr ?F"
    unfolding d using f by (simp add: getitem_setitem_other)
  moreover have "getitem df' ''number_of_open_complaints'' = Inr d'"
    unfolding d using n by (rule getitem_setitem_same)
  ultimately show ?thesis using x y t by blast
qed

lemma clean_and_convert_numerical_total:
  assumes x: "getitem df ''customer_lifetime_value'' = Inr (TextCol xs)"
    and y: "getitem df ''number_of_open_complaints'' = Inr (TextCol ys)"
    and b: "\<forall>s t. Some s \<in> set ys \<longrightarrow> str_extract_token s = Some t \<longrightarrow> nat_of_digits t \<le> 2 ^ 53"
  shows "\<exists>df'. clean_and_convert_numerical rd df = Inr df' \<and>
           getitem df' ''customer_lifetime_value'' =
             Inr (FloatCol (map (\<lambda>x. case x of None \<Rightarrow> None
                                       | Some s \<Rightarrow> rd (str_rstrip CHR ''%'' s)) xs)) \<and>
           getitem df' ''number_of_open_complaints'' =
             Inr (IntCol (map (\<lambda>y. case y of None \<Rightarrow> None
                                     | Some s \<Rightarrow> map_option (\<lambda>t. int (nat_of_digits t))
                                                  (str_extract_token s)) ys))"
proof -
  let ?ts = "map (\<lambda>y. case y of None \<Rightarrow> None | Some s \<Rightarrow> str_extract_token s) ys"
  have "\<forall>t. Some t \<in> set ?ts \<longrightarrow> nat_of_digits t \<le> 2 ^ 53"
  proof (intro allI impI)
    fix t assume "Some t \<in> set ?ts"
    then obtain y where y: "y \<in> set ys"
      "Some t = (case y of None \<Rightarrow> None | Some s \<Rightarrow> str_extract_token s)" by auto
    from y(2) obtain s where "y = Some s" "str_extract_token s = Some t" by (cases y) auto
    with y(1) b show "nat_of_digits t \<le> 2 ^ 53" by blast
  qed
  then have t: "to_numeric_Int64 (TextCol ?ts) =
      Inr (IntCol (map (map_option (\<lambda>t. int (nat_of_digits t))) ?ts))"
    by (rule to_numeric_Int64_small)
  have m: "map (map_option (\<lambda>t. int (nat_of_digits t))) ?ts =
      map (\<lambda>y. case y of None \<Rightarrow> None
               | Some s \<Rightarrow> map_option (\<lambda>t. int (nat_of_digits t)) (str_extract_token s)) ys"
    by (induction ys) (auto split: option.splits)
  let ?df' = "setitem
                (setitem df ''customer_lifetime_value''
                   (FloatCol (map (\<lambda>x. case x of None \<Rightarrow> None
                                          | Some s \<Rightarrow> rd (str_rstrip CHR ''%'' s)) xs)))
                ''number_of_open_complaints''
                (IntCol (map (map_option (\<lambda>t. int (nat_of_digits t))) ?ts))"
  have r: "clean_and_convert_numerical rd df = Inr ?df'"
    unfolding clean_and_convert_numerical_Inr_iff using x y t by blast
  from clean_and_convert_numerical_columns[OF r] x y t m
  show ?thesis using r by auto
qed

section \<open>Stage 7 on typed columns\<close>




section \<open>The pipeline on a frame of eleven columns\<close>

lemma getitem_frame11:
  "getitem (frame11 a b c d e f g h i j k) ''customer'' = Inr a"
  "getitem (frame11 a b c d e f g h i j k) ''state'' = Inr b"
  "getitem (frame11 a b c d e f g h i j k) ''gender'' = Inr c"
  "getitem (frame11 a b c d e f g h i j k) ''education'' = Inr d"
  "getitem (frame11 a b c d e f g h i j k) ''customer_lifetime_value'' = Inr e"
  "getitem (frame11 a b c d e f g h i j k) ''customer_income'' = Inr f"
  "getitem (frame11 a b c d e f g h i j k) ''monthly_premium_auto'' = Inr g"
  "getitem (frame11 a b c d e f g h i j k) ''number_of_open_complaints'' = Inr h"
  "getitem (frame11 a b c d e f g h i j k) ''policy_type'' = Inr i"
  "getitem (frame11 a b c d e f g h i j k) ''vehicle_class'' = Inr j"
  "getitem (frame11 a b c d e f g h i j k) ''total_claim_amount'' = Inr k"
  by (simp_all add: frame11_def getitem_def columns_named_def)

lemma setitem_frame11:
  "setitem (frame11 a b c d e f g h i j k) ''customer'' x = frame11 x b c d e f g h i j k"
  "setitem (frame11 a b c d e f g h i j k) ''state'' x = frame11 a x c d e f g h i j k"
  "setitem (frame11 a b c d e f g h i j k) ''gender'' x = frame11 a b x d e f g h i j k"
  "setitem (frame11 a b c d e f g h i j k) ''education'' x = frame11 a b c x e f g h i j k"
  "setitem (frame11 a b c d e f g h i j k) ''customer_lifetime_value'' x = frame11 a b c d x f g h i j k"
  "setitem (frame11 a b c d e f g h i j k) ''customer_income'' x = frame11 a b c d e x g h i j k"
  "setitem (frame11 a b c d e f g h i j k) ''monthly_premium_auto'' x = frame11 a b c d e f x h i j k"
  "setitem (frame11 a b c d e f g h i j k) ''number_of_open_complaints'' x = frame11 a b c d e f g x i j k"
  "setitem (frame11 a b c d e f g h i j k) ''policy_type'' x = frame11 a b c d e f g h x j k"
  "setitem (frame11 a b c d e f g h i j k) ''vehicle_class'' x = frame11 a b c d e f g h i x k"
  "setitem (frame11 a b c d e f g h i j k) ''total_claim_amount'' x = frame11 a b c d e f g h i j x"
  by (simp_all add: frame11_def setitem_def)

lemma complaints_missing_frame11:
  "columns_named (frame11 a b c d e f g h i j k) ''complaints_missing'' = []"
  "setitem (frame11 a b c d e f g h i j k) ''complaints_missing'' x =
     frame11 a b c d e f g h i j k @ [(''complaints_missing'', x)]"
  by (simp_all add: frame11_def setitem_def columns_named_def)

lemma clean_column_names_frame11:
  "clean_column_names (frame11 a b c d e f g h i j k) = Inr (frame11 a b c d e f g h i j k)"
  by (simp add: frame11_def clean_column_names_def map_labels_def str_lower_def char_lower_def
      lower_table_def str_replace_space_def rename_label_def)

lemma map_text_column_frame11:
  "map_text_column ''gender'' fn (frame11 a b (TextCol xs) d e f g h i j k) =
     Inr (frame11 a b (TextCol (map fn xs)) d e f g h i j k)"
  "map_text_column ''state'' fn (frame11 a (TextCol xs) c d e f g h i j k) =
     Inr (frame11 a (TextCol (map fn xs)) c d e f g h i j k)"
  "map_text_column ''education'' fn (frame11 a b c (TextCol xs) e f g h i j k) =
     Inr (frame11 a b c (TextCol (map fn xs)) e f g h i j k)"
  "map_text_column ''vehicle_class'' fn (frame11 a b c d e f g h i (TextCol xs) k) =
     Inr (frame11 a b c d e f g h i (TextCol (map fn xs)) k)"
  by (simp_all add: map_text_column_def str_accessor_def getitem_frame11 setitem_frame11)

lemma handle_missing_values_frame11:
  "handle_missing_values
     (frame11 (TextCol cu) (TextCol st) (TextCol ge) (TextCol ed) (FloatCol lv) (FloatCol inc)
        (FloatCol pr) (IntCol oc) (TextCol po) (TextCol ve) (FloatCol cl)) =
   Inr (frame11 (TextCol (map (fill_cell ''Unknown'') cu)) (TextCol (map (fill_cell ''Unknown'') st))
          (TextCol (map (fill_cell ''Unknown'') ge)) (TextCol (map (fill_cell ''Unknown'') ed))
          (FloatCol (median_filled lv)) (FloatCol (median_filled inc))
          (FloatCol (median_filled pr)) (IntCol oc) (TextCol (map (fill_cell ''Unknown'') po))
          (TextCol (map (fill_cell ''Unknown'') ve)) (FloatCol (median_filled cl))
        @ [(''complaints_missing'', BoolCol (map (\<lambda>x. x = None) oc))])"
proof -
  have m: "fillna_median (FloatCol xs) = Inr (FloatCol (median_filled xs))" for xs
    by (simp add: fillna_median_def median_filled_def split: option.splits)
  have t: "fillna_text v (TextCol xs) = Inr (TextCol (map (fill_cell v) xs))" for v xs
    by (simp add: fillna_text_def)
  show ?thesis
    by (simp add: handle_missing_values_def categorical_cols_def numerical_cols_def
        getitem_frame11 setitem_frame11 complaints_missing_frame11 m t)
qed

lemma clean_and_convert_numerical_frame11:
  assumes "\<forall>s t. Some s \<in> set oc \<longrightarrow> str_extract_token s = Some t \<longrightarrow> nat_of_digits t \<le> 2 ^ 53"
  shows "clean_and_convert_numerical rd (frame11 a b c d (TextCol lv) f g (TextCol oc) i j k) =
     Inr (frame11 a b c d
            (FloatCol (map (\<lambda>x. case x of None \<Rightarrow> None
                                  | Some s \<Rightarrow> rd (str_rstrip CHR ''%'' s)) lv)) f g
            (IntCol (map (\<lambda>y. case y of None \<Rightarrow> None
                                | Some s \<Rightarrow> map_option (\<lambda>t. int (nat_of_digits t))
                                             (str_extract_token s)) oc)) i j k)"
proof -
  let ?ts = "map (\<lambda>y. case y of None \<Rightarrow> None | Some s \<Rightarrow> str_extract_token s) oc"
  have "\<forall>t. Some t \<in> set ?ts \<longrightarrow> nat_of_digits t \<le> 2 ^ 53"
  proof (intro allI impI)
    fix t assume "Some t \<in> set ?ts"
    then obtain y where y: "y \<in> set oc"
      "Some t = (case y of None \<Rightarrow> None | Some s \<Rightarrow> str_extract_token s)" by auto
    from y(2) obtain s where "y = Some s" "str_extract_token s = Some t" by (cases y) auto
    with y(1) assms show "nat_of_digits t \<le> 2 ^ 53" by blast
  qed
  then have t: "to_numeric_Int64 (TextCol ?ts) =
      Inr (IntCol (map (map_option (\<lambda>t. int (nat_of_digits t))) ?ts))"
    by (rule to_numeric_Int64_small)
  have m: "map (map_option (\<lambda>t. int (nat_of_digits t))) ?ts =
      map (\<lambda>y. case y of None \<Rightarrow> None
               | Some s \<Rightarrow> map_option (\<lambda>t. int (nat_of_digits t)) (str_extract_token s)) oc"
    by (induction oc) (auto split: option.splits)
  show ?thesis
    unfolding clean_and_convert_numerical_Inr_iff
    by (rule exI[of _ lv], rule exI[of _ oc],
        rule exI[of _ "IntCol (map (map_option (\<lambda>t. int (nat_of_digits t))) ?ts)"])
      (simp only: getitem_frame11 setitem_frame11 t m simp_thms)
qed

lemma main_cleaning_pipeline_frame11:
  assumes "\<forall>s t. Some s \<in> set oc \<longrightarrow> str_extract_token s = Some t \<longrightarrow> nat_of_digits t \<le> 2 ^ 53"
  shows "main_cleaning_pipeline rd
      (frame11 (TextCol cu) (TextCol st) (TextCol ge) (TextCol ed) (TextCol lv) (FloatCol inc)
         (FloatCol pr) (TextCol oc) (TextCol po) (TextCol ve) (FloatCol cl)) =
    Inr (frame11 (TextCol (map (fill_cell ''Unknown'') cu))
           (TextCol (map (fill_cell ''Unknown'') (map state_cell st)))
           (TextCol (map (fill_cell ''Unknown'') (map gender_cell ge)))
           (TextCol (map (fill_cell ''Unknown'') (map education_cell ed)))
           (FloatCol (median_filled (map (\<lambda>x. case x of None \<Rightarrow> None
                                          | Some s \<Rightarrow> rd (str_rstrip CHR ''%'' s)) lv)))
           (FloatCol (median_filled inc)) (FloatCol (median_filled pr))
           (IntCol (map (\<lambda>y. case y of None \<Rightarrow> None
                               | Some s \<Rightarrow> map_option (\<lambda>t. int (nat_of_digits t))
                                            (str_extract_token s)) oc))
           (TextCol (map (fill_cell ''Unknown'') po))
           (TextCol (map (fill_cell ''Unknown'') (map vehicle_cell ve)))
           (FloatCol (median_filled cl))
         @ [(''complaints_missing'',
             BoolCol (map (\<lambda>x. x = None)
               (map (\<lambda>y. case y of None \<Rightarrow> None
                               | Some s \<Rightarrow> map_option (\<lambda>t. int (nat_of_digits t))
                                            (str_extract_token s)) oc)))])"
  by (simp only: main_cleaning_pipeline_def clean_column_names_frame11 and_then_Inr
      standardize_gender_eq standardize_state_eq standardize_education_eq
      standardize_vehicle_class_eq map_text_column_frame11
      clean_and_convert_numerical_frame11[OF assms] handle_missing_values_frame11)

lemma main_cleaning_pipeline_after_names:
  assumes "clean_column_names df = Inr df1"
  shows "main_cleaning_pipeline rd df = main_cleaning_pipeline rd df1"
  using assms clean_column_names_idem[OF assms]
  by (simp add: main_cleaning_pipeline_def)

section \<open>The complaints flag\<close>

lemma to_numeric_Int64_IntCol: "to_numeric_Int64 c = Inr d \<Longrightarrow> \<exists>xs. d = IntCol xs"
  by (cases c) (auto simp: to_numeric_Int64_def Let_def split: if_splits)

lemma handle_missing_values_flag:
  assumes "handle_missing_values df = Inr df'"
  shows "\<exists>c. getitem df ''number_of_open_complaints'' = Inr c \<and>
             getitem df' ''number_of_open_complaints'' = Inr c \<and>
             getitem df' ''complaints_missing'' = Inr (BoolCol (isnull c))"
proof -
  from assms obtain df1 df2 c where
    a: "fill_columns (fillna_text ''Unknown'') categorical_cols df = Inr df1" and
    b: "fill_columns fillna_median numerical_cols df1 = Inr df2" and
    c: "getitem df2 ''number_of_open_complaints'' = Inr c" and
    l: "length (columns_named df2 ''complaints_missing'') \<le> 1" and
    d: "df' = setitem df2 ''complaints_missing'' (BoolCol (isnull c))"
    by (auto simp: handle_missing_values_Inr_iff)
  from fill_columns_frame[OF a] fill_columns_frame[OF b] cols_distinct(4,5) c
  have "getitem df ''number_of_open_complaints'' = Inr c" by simp
  moreover have "getitem df' ''number_of_open_complaints'' = Inr c"
    unfolding d using c by (simp add: getitem_setitem_other)
  moreover have "getitem df' ''complaints_missing'' = Inr (BoolCol (isnull c))"
    unfolding d using l by (rule getitem_setitem_at_most_one)
  ultimately show ?thesis by blast
qed

section \<open>The stages on the example frames\<close>

lemma standardize_gender_example: "standardize_gender genders_example = Inr genders_cleaned"
  by (simp add: standardize_gender_eq map_text_column_def str_accessor_def getitem_def
      columns_named_def genders_example_def genders_cleaned_def setitem_def gender_cell_def
      starts_with_class_def)

lemma states_example_state:
  "getitem states_example ''state'' = Inr (TextCol [Some ''ca'', Some ''Cali'', None, Some ''Quebec''])"
  by (simp add: getitem_def columns_named_def states_example_def)

lemma str_upper_examples:
  "str_upper ''ca'' = ''CA''" "str_upper ''Cali'' = ''CALI''" "str_upper ''Quebec'' = ''QUEBEC''"
  by (simp_all add: str_upper_def char_upper_def upper_table_def)

lemma state_mapping_examples:
  "map_of state_mapping ''CA'' = Some ''CALIFORNIA''"
  "map_of state_mapping ''QUEBEC'' = None"
  by (simp_all add: state_mapping_def)

lemma vehicles_example_column:
  "getitem vehicles_example ''vehicle_class'' =
     Inr (TextCol [Some ''Luxury SUV'', Some ''Sports Car'', Some ''upscale'', None,
                   Some ''Four-Door Car'', Some ''Sportsman''])"
  by (simp add: getitem_def columns_named_def vehicles_example_def)

lemma standalone_word_examples:
  "\<not> standalone_word ''Sports'' ''Luxury SUV''"
  "standalone_word ''Sports'' ''Sports Car''"
  "\<not> standalone_word ''Sports'' ''upscale''"
  "\<not> standalone_word ''Sports'' ''Four-Door Car''"
  "\<not> standalone_word ''Sports'' ''Sportsman''"
  by (simp_all add: search_word_standalone[symmetric] is_word_char_def)

lemma states_example_ascii:
  "\<forall>v. Some v \<in> set [Some ''ca'', Some ''Cali'', None, Some ''Quebec''] \<longrightarrow> is_ascii v"
  by (auto simp: is_ascii_def)

lemma vehicles_example_ascii:
  "\<forall>s. Some s \<in> set [Some ''Luxury SUV'', Some ''Sports Car'', Some ''upscale'', None,
                         Some ''Four-Door Car'', Some ''Sportsman''] \<longrightarrow> is_ascii s"
  by (auto simp: is_ascii_def)

lemma unrelated_example_within_model:
  "distinct (map fst unrelated_example)"
  "within_model unrelated_example"
  "within_model [(''policy_number'', IntCol [Some 1, Some 2])]"
  by (simp_all add: within_model_def unrelated_example_def categorical_cols_def getitem_def
      columns_named_def)

lemma unrelated_example_labels:
  "fst ` set unrelated_example = {''Policy Number''}"
  "clean_column_names unrelated_example = Inr [(''policy_number'', IntCol [Some 1, Some 2])]"
  by (simp_all add: clean_column_names_def map_labels_def str_lower_def char_lower_def
      lower_table_def str_replace_space_def rename_label_def unrelated_example_def)

lemma clean_column_names_example: "clean_column_names headers_example = Inr headers_cleaned"
  by (simp add: clean_column_names_def map_labels_def str_lower_def char_lower_def
      lower_table_def str_replace_space_def rename_label_def headers_example_def headers_cleaned_def)

lemma standardize_state_example: "standardize_state states_example = Inr states_cleaned"
  by (simp add: standardize_state_eq map_text_column_def str_accessor_def getitem_def
      columns_named_def states_example_def states_cleaned_def setitem_def state_cell_def
      replace_cell_def str_upper_examples state_mapping_examples state_mapping_facts)

lemma standardize_education_example: "standardize_education educations_example = Inr educations_cleaned"
  by (simp add: standardize_education_eq map_text_column_def str_accessor_def getitem_def
      columns_named_def educations_example_def educations_cleaned_def setitem_def
      education_cell_def starts_with_class_def)

lemma standardize_vehicle_class_example: "standardize_vehicle_class vehicles_example = Inr vehicles_cleaned"
  by (simp add: standardize_vehicle_class_eq map_text_column_def str_accessor_def getitem_def
      columns_named_def vehicles_example_def vehicles_cleaned_def setitem_def
      vehicle_cell_def starts_with_class_def contains_word_def is_word_char_def)

lemma nat_of_digits_examples:
  "nat_of_digits ''5'' = 5" "nat_of_digits ''0'' = 0" "nat_of_digits ''50'' = 50"
  "nat_of_digits ''897'' = 897" "nat_of_digits ''89723'' = 89723"
  by (simp_all add: nat_of_digits_def digit_val_def)

lemma read_decimal_examples:
  "read_decimal ''897.23'' = Some 897.23" "read_decimal ''50'' = Some 50"
  "read_decimal ''abc'' = None" "read_decimal ''50%'' = None"
  by (simp_all add: read_decimal_def is_digit_def nat_of_digits_def digit_val_def)

lemma str_rstrip_examples:
  "str_rstrip CHR ''%'' ''897.23%'' = ''897.23''" "str_rstrip CHR ''%'' ''50%%'' = ''50''"
  "str_rstrip CHR ''%'' ''abc'' = ''abc''"
  by (simp_all add: str_rstrip_def)

lemma str_extract_token_examples:
  "str_extract_token ''1/5/00'' = Some ''5''" "str_extract_token ''bogus'' = None"
  "str_extract_token ''1/0/00'' = Some ''0''"
  by (simp_all add: is_digit_def)

lemma clean_and_convert_numerical_example: "clean_and_convert_numerical read_decimal numerics_example = Inr numerics_coerced"
  by (simp add: clean_and_convert_numerical_Inr_iff numerics_example_def numerics_coerced_def
      getitem_def columns_named_def setitem_def to_numeric_Int64_def INT64_MAX_def
      float64_of_nat_def is_digit_def
      nat_of_digits_examples read_decimal_examples str_rstrip_examples str_extract_token_examples)

lemma median_examples:
  "median [697953, 1288743] = Some 993348"
  "median [10000, 30000, 20000] = Some 20000"
  "median [1000, 94, 108, 106] = Some 107"
  "median [2, 1131, 566] = Some 566"
  by (simp_all add: median_def)

lemma handle_missing_values_example: "handle_missing_values coerced_example = Inr filled_example"
  by (simp add: handle_missing_values_def categorical_cols_def numerical_cols_def
      coerced_example_def filled_example_def getitem_def columns_named_def setitem_def
      fillna_text_def fillna_median_def fill_cell_def non_null_def List.map_filter_def
      median_examples)

lemma numerics_example_columns:
  "getitem numerics_example ''customer_lifetime_value'' =
     Inr (TextCol [Some ''897.23%'', Some ''50%%'', Some ''abc'', None])"
  "getitem numerics_example ''number_of_open_complaints'' =
     Inr (TextCol [Some ''1/5/00'', Some ''bogus'', None, Some ''1/0/00''])"
  by (simp_all add: getitem_def columns_named_def numerics_example_def)

lemma numerics_example_tokens:
  "\<forall>s t. Some s \<in> set [Some ''1/5/00'', Some ''bogus'', None, Some ''1/0/00''] \<longrightarrow>
      str_extract_token s = Some t \<longrightarrow> nat_of_digits t \<le> 2 ^ 53"
  by (auto simp: str_extract_token_examples nat_of_digits_examples)



lemma claim_row_tokens:
  "\<forall>s t. Some s \<in> set [Some ''1/5/00''] \<longrightarrow> str_extract_token s = Some t \<longrightarrow>
      nat_of_digits t \<le> 2 ^ 53"
  by (auto simp: str_extract_token_examples nat_of_digits_examples)

lemma claim_row_cells:
  "state_cell (Some ''ca'') = Some ''CALIFORNIA''"
  "gender_cell (Some ''female'') = Some ''F''"
  "education_cell (Some ''Bach of Science'') = Some ''Bachelor''"
  "vehicle_cell (Some ''luxury car'') = Some ''luxury car''"
  by (simp_all add: state_cell_def replace_cell_def str_upper_examples state_mapping_examples
      gender_cell_def education_cell_def vehicle_cell_def starts_with_class_def
      contains_word_def is_word_char_def)

lemma median_filled_single: "median_filled [Some a] = [Some a]"
  by (simp add: median_filled_def non_null_def List.map_filter_def median_def fill_cell_def)

lemma claim_row_pipeline:
  "main_cleaning_pipeline read_decimal (claim_row cust pol clm prem inc) =
     Inr (frame11 (TextCol [Some cust]) (TextCol [Some ''CALIFORNIA'']) (TextCol [Some ''F''])
            (TextCol [Some ''Bachelor'']) (FloatCol [Some 897.23]) (FloatCol [Some inc])
            (FloatCol [Some prem]) (IntCol [Some 5]) (TextCol [Some pol])
            (TextCol [Some ''luxury car'']) (FloatCol [Some clm])
          @ [(''complaints_missing'', BoolCol [False])])"
  unfolding claim_row_def main_cleaning_pipeline_frame11[OF claim_row_tokens]
  by (simp add: claim_row_cells median_filled_single fill_cell_def str_rstrip_examples
      read_decimal_examples is_digit_def nat_of_digits_examples)

lemma non_null_simps:
  "non_null [] = []" "non_null (Some a # xs) = a # non_null xs"
  "non_null (None # xs) = non_null xs"
  by (simp_all add: non_null_def List.map_filter_def)

lemma median_filled_examples:
  "median_filled [Some a, None] = [Some a, Some a]"
  "median_filled [Some a, Some b] = [Some a, Some b]"
  by (simp_all add: median_filled_def non_null_simps median_def fill_cell_def Let_def)

lemma raw_example_names:
  "clean_column_names raw_example =
     Inr (frame11 (TextCol [Some ''QZ44356'', Some ''AI49188''])
            (TextCol [Some ''Arizona'', Some ''Cali''])
            (TextCol [Some ''F'', Some ''Femal''])
            (TextCol [Some ''Bachelors'', None])
            (TextCol [Some ''697953.59%'', None])
            (FloatCol [Some 0, Some 48767])
            (FloatCol [Some 94, Some 108])
            (TextCol [Some ''1/0/00'', Some ''bogus''])
            (TextCol [Some ''Personal Auto'', Some ''Personal Auto''])
            (TextCol [Some ''Four-Door Car'', Some ''Sports Car''])
            (FloatCol [Some 1131, Some 566]))"
  by (simp add: raw_example_def frame11_def clean_column_names_def map_labels_def str_lower_def
      char_lower_def lower_table_def str_replace_space_def rename_label_def)

lemma raw_example_tokens:
  "\<forall>s t. Some s \<in> set [Some ''1/0/00'', Some ''bogus''] \<longrightarrow> str_extract_token s = Some t \<longrightarrow>
      nat_of_digits t \<le> 2 ^ 53"
  by (auto simp: str_extract_token_examples nat_of_digits_examples)

lemma raw_example_cells:
  "state_cell (Some ''Arizona'') = Some ''ARIZONA''"
  "state_cell (Some ''Cali'') = Some ''CALIFORNIA''"
  "gender_cell (Some ''F'') = Some ''F''"
  "gender_cell (Some ''Femal'') = Some ''F''"
  "education_cell (Some ''Bachelors'') = Some ''Bachelor''"
  "education_cell None = None"
  "vehicle_cell (Some ''Four-Door Car'') = Some ''Four-Door Car''"
  "vehicle_cell (Some ''Sports Car'') = Some ''Luxury''"
  "read_decimal ''697953.59'' = Some 697953.59"
  "str_rstrip CHR ''%'' ''697953.59%'' = ''697953.59''"
  by (simp_all add: state_cell_def replace_cell_def str_upper_def char_upper_def upper_table_def
      state_mapping_def
      gender_cell_def education_cell_def vehicle_cell_def starts_with_class_def
      contains_word_def is_word_char_def read_decimal_def is_digit_def nat_of_digits_def
      digit_val_def str_rstrip_def)

lemma raw_example_pipeline:
  "main_cleaning_pipeline read_decimal raw_example = Inr raw_cleaned"
  unfolding main_cleaning_pipeline_after_names[OF raw_example_names]
    main_cleaning_pipeline_frame11[OF raw_example_tokens] raw_cleaned_def
  by (simp add: raw_example_cells median_filled_examples fill_cell_def is_digit_def
      nat_of_digits_examples)

lemma raw_cleaned_complaints:
  "getitem raw_cleaned ''number_of_open_complaints'' = Inr (IntCol [Some 0, None])"
  by (simp add: raw_cleaned_def frame11_def getitem_def columns_named_def)

section \<open>The claims\<close>

text \<open>
  C1 (amended). On the input row of the example, with any non-null cells in the five
  other required columns, the pipeline returns the row with gender \<open>F\<close>, state
  \<open>CALIFORNIA\<close>, education \<open>Bachelor\<close>, lifetime value 897.23, five open complaints
  and the flag false; the vehicle class stays \<open>luxury car\<close>.
\<close>

theorem pipeline_example_row:
  "main_cleaning_pipeline read_decimal (claim_row cust pol clm prem inc) =
     Inr (frame11 (TextCol [Some cust]) (TextCol [Some ''CALIFORNIA'']) (TextCol [Some ''F''])
            (TextCol [Some ''Bachelor'']) (FloatCol [Some 897.23]) (FloatCol [Some inc])
            (FloatCol [Some prem]) (IntCol [Some 5]) (TextCol [Some pol])
            (TextCol [Some ''luxury car'']) (FloatCol [Some clm])
          @ [(''complaints_missing'', BoolCol [False])])"
  by (rule claim_row_pipeline)

text \<open>
  The claim as it is written fails: the vehicle class of the output row is not
  \<open>Luxury\<close>.
\<close>

theorem pipeline_example_row_counterexample:
  "\<exists>df'. main_cleaning_pipeline read_decimal
           (claim_row ''QZ44356'' ''Personal Auto'' 1131 94 48767) = Inr df' \<and>
         getitem df' ''vehicle_class'' = Inr (TextCol [Some ''luxury car'']) \<and>
         getitem df' ''vehicle_class'' \<noteq> Inr (TextCol [Some ''Luxury''])"
  by (simp add: claim_row_pipeline getitem_def columns_named_def frame11_def)

text \<open>
  C2 (amended). When the vehicle class column is a text column of ASCII cells the stage
  returns, and in the new column a non-null cell is \<open>Luxury\<close> when its first character
  is \<open>L\<close> or \<open>u\<close>, or when it contains the standalone word \<open>Sports\<close>; every other
  cell is the cell it was, and null cells stay null. On ASCII text the word characters of
  \<open>is_word_char\<close> are those of Python's \<^verbatim>\<open>\w\<close>.
\<close>

theorem vehicle_class_rule:
  assumes "getitem df ''vehicle_class'' = Inr (TextCol xs)"
    and "\<forall>s. Some s \<in> set xs \<longrightarrow> is_ascii s"
  shows "\<exists>df'. standardize_vehicle_class df = Inr df' \<and>
           getitem df' ''vehicle_class'' =
             Inr (TextCol (map (\<lambda>x. case x of
                None \<Rightarrow> None
              | Some s \<Rightarrow>
                  if (\<exists>t. s = CHR ''L'' # t \<or> s = CHR ''u'' # t) \<or> standalone_word ''Sports'' s
                  then Some ''Luxury'' else Some s) xs))"
  using map_text_column_total[OF assms(1), of vehicle_cell]
  by (simp add: standardize_vehicle_class_eq vehicle_cell_eq[abs_def])

theorem vehicle_class_rule_witness:
  "\<exists>df'. standardize_vehicle_class vehicles_example = Inr df' \<and>
      getitem df' ''vehicle_class'' =
        Inr (TextCol [Some ''Luxury'', Some ''Luxury'', Some ''Luxury'', None,
                      Some ''Four-Door Car'', Some ''Sportsman''])"
  using vehicle_class_rule[OF vehicles_example_column vehicles_example_ascii]
  by (simp add: standalone_word_examples)

text \<open>
  The claim as it is written fails: a cell that begins with \<open>U\<close> and a cell that begins
  with \<open>l\<close> are not replaced.
\<close>

theorem vehicle_class_counterexample:
  "standardize_vehicle_class [(''vehicle_class'', TextCol [Some ''Utility truck'', Some ''luxury car''])]
     = Inr [(''vehicle_class'', TextCol [Some ''Utility truck'', Some ''luxury car''])]"
  by (simp add: standardize_vehicle_class_eq map_text_column_def str_accessor_def getitem_def
      columns_named_def setitem_def vehicle_cell_def starts_with_class_def contains_word_def
      is_word_char_def)

text \<open>
  C3 (amended). Stages 1 to 5 and stage 7 are idempotent: when the stage returns a table,
  the stage applied to that table returns the same table; for stage 1 this says that
  normalising the column names twice gives the names of normalising them once. Stage 6 is
  not idempotent: applied to a table it has returned, it raises \<^verbatim>\<open>AttributeError\<close>,
  because \<^verbatim>\<open>customer_lifetime_value\<close> is no longer a text column.
\<close>

theorem stages_idempotent:
  "(\<forall>df df'. clean_column_names df = Inr df' \<longrightarrow> clean_column_names df' = Inr df') \<and>
   (\<forall>df df'. standardize_gender df = Inr df' \<longrightarrow> standardize_gender df' = Inr df') \<and>
   (\<forall>df df'. standardize_state df = Inr df' \<longrightarrow> standardize_state df' = Inr df') \<and>
   (\<forall>df df'. standardize_education df = Inr df' \<longrightarrow> standardize_education df' = Inr df') \<and>
   (\<forall>df df'. standardize_vehicle_class df = Inr df' \<longrightarrow> standardize_vehicle_class df' = Inr df') \<and>
   (\<forall>df df'. handle_missing_values df = Inr df' \<longrightarrow> handle_missing_values df' = Inr df') \<and>
   (\<forall>rd df df'. clean_and_convert_numerical rd df = Inr df' \<longrightarrow>
        clean_and_convert_numerical rd df' = Inl AttributeError)"
proof (intro conjI allI impI)
  fix df df' :: table
  show "clean_column_names df' = Inr df'" if "clean_column_names df = Inr df'"
    using that by (rule clean_column_names_idem)
  show "standardize_gender df' = Inr df'" if "standardize_gender df = Inr df'"
    using that unfolding standardize_gender_eq
    by (rule map_text_column_idem[rotated]) (rule cell_idems)
  show "standardize_state df' = Inr df'" if "standardize_state df = Inr df'"
    using that unfolding standardize_state_eq
    by (rule map_text_column_idem[rotated]) (rule state_cell_idem)
  show "standardize_education df' = Inr df'" if "standardize_education df = Inr df'"
    using that unfolding standardize_education_eq
    by (rule map_text_column_idem[rotated]) (rule cell_idems)
  show "standardize_vehicle_class df' = Inr df'" if "standardize_vehicle_class df = Inr df'"
    using that unfolding standardize_vehicle_class_eq
    by (rule map_text_column_idem[rotated]) (rule cell_idems)
  show "handle_missing_values df' = Inr df'" if "handle_missing_values df = Inr df'"
    using that by (rule handle_missing_values_idem)
  show "clean_and_convert_numerical rd df' = Inl AttributeError"
    if "clean_and_convert_numerical rd df = Inr df'" for rd
    using that by (rule clean_and_convert_numerical_twice)
qed

theorem stages_idempotent_witness:
  "clean_column_names headers_example = Inr headers_cleaned \<and>
   clean_column_names headers_cleaned = Inr headers_cleaned \<and>
   standardize_gender genders_example = Inr genders_cleaned \<and>
   standardize_gender genders_cleaned = Inr genders_cleaned \<and>
   standardize_state states_example = Inr states_cleaned \<and>
   standardize_state states_cleaned = Inr states_cleaned \<and>
   standardize_education educations_example = Inr educations_cleaned \<and>
   standardize_education educations_cleaned = Inr educations_cleaned \<and>
   standardize_vehicle_class vehicles_example = Inr vehicles_cleaned \<and>
   standardize_vehicle_class vehicles_cleaned = Inr vehicles_cleaned \<and>
   handle_missing_values coerced_example = Inr filled_example \<and>
   handle_missing_values filled_example = Inr filled_example \<and>
   clean_and_convert_numerical read_decimal numerics_example = Inr numerics_coerced \<and>
   clean_and_convert_numerical read_decimal numerics_coerced = Inl AttributeError"
  using stages_idempotent clean_column_names_example standardize_gender_example
    standardize_state_example standardize_education_example standardize_vehicle_class_example
    clean_and_convert_numerical_example handle_missing_values_example
  by blast

text \<open>
  The claim as it is written fails at stage 6: the stage returns a table on a text input
  and raises on the table it has returned.
\<close>

theorem stage6_twice_counterexample:
  "clean_and_convert_numerical read_decimal numerics_example = Inr numerics_coerced \<and>
   clean_and_convert_numerical read_decimal numerics_coerced = Inl AttributeError"
  using clean_and_convert_numerical_example
    clean_and_convert_numerical_twice[OF clean_and_convert_numerical_example]
  by simp

text \<open>
  C4 (amended). When \<^verbatim>\<open>customer_lifetime_value\<close> and \<^verbatim>\<open>number_of_open_complaints\<close> are
  text columns and no extracted token is above \<open>2 ^ 53\<close>, stage 6 returns a table: it
  does not raise. A lifetime value cell becomes what the reader gives on the stripped
  text, null when the text does not parse. A complaints cell becomes null when the text
  has no slash-delimited token and the number written by the token otherwise; the token
  is the leftmost run of digits between two slashes.
\<close>

theorem numeric_coercion_rule:
  assumes "getitem df ''customer_lifetime_value'' = Inr (TextCol xs)"
    and "getitem df ''number_of_open_complaints'' = Inr (TextCol ys)"
    and "\<forall>s t. Some s \<in> set ys \<longrightarrow> str_extract_token s = Some t \<longrightarrow> nat_of_digits t \<le> 2 ^ 53"
  shows "(\<exists>df'. clean_and_convert_numerical rd df = Inr df' \<and>
           getitem df' ''customer_lifetime_value'' =
             Inr (FloatCol (map (\<lambda>x. case x of None \<Rightarrow> None
                                       | Some s \<Rightarrow> rd (str_rstrip CHR ''%'' s)) xs)) \<and>
           getitem df' ''number_of_open_complaints'' =
             Inr (IntCol (map (\<lambda>y. case y of None \<Rightarrow> None
                                     | Some s \<Rightarrow> map_option (\<lambda>t. int (nat_of_digits t))
                                                  (str_extract_token s)) ys))) \<and>
         (\<forall>s. str_extract_token s = None \<longleftrightarrow> (\<forall>pre t post. \<not> slash_token_at pre t post s)) \<and>
         (\<forall>s t. str_extract_token s = Some t \<longrightarrow>
            (\<exists>pre post. slash_token_at pre t post s \<and>
               (\<forall>pre' t' post'. slash_token_at pre' t' post' s \<longrightarrow>
                  length pre \<le> length pre' \<and> (length pre' = length pre \<longrightarrow> t' = t))))"
proof (intro conjI allI impI)
  show "\<exists>df'. clean_and_convert_numerical rd df = Inr df' \<and>
           getitem df' ''customer_lifetime_value'' =
             Inr (FloatCol (map (\<lambda>x. case x of None \<Rightarrow> None
                                       | Some s \<Rightarrow> rd (str_rstrip CHR ''%'' s)) xs)) \<and>
           getitem df' ''number_of_open_complaints'' =
             Inr (IntCol (map (\<lambda>y. case y of None \<Rightarrow> None
                                     | Some s \<Rightarrow> map_option (\<lambda>t. int (nat_of_digits t))
                                                  (str_extract_token s)) ys))"
    using assms by (rule clean_and_convert_numerical_total)
  show "str_extract_token s = None \<longleftrightarrow> (\<forall>pre t post. \<not> slash_token_at pre t post s)" for s
    by (rule str_extract_token_None_iff)
  show "\<exists>pre post. slash_token_at pre t post s \<and>
               (\<forall>pre' t' post'. slash_token_at pre' t' post' s \<longrightarrow>
                  length pre \<le> length pre' \<and> (length pre' = length pre \<longrightarrow> t' = t))"
    if "str_extract_token s = Some t" for s t
    using that by (rule str_extract_token_Some)
qed

theorem numeric_coercion_rule_witness:
  "\<exists>df'. clean_and_convert_numerical read_decimal numerics_example = Inr df' \<and>
      getitem df' ''customer_lifetime_value'' = Inr (FloatCol [Some 897.23, Some 50, None, None]) \<and>
      getitem df' ''number_of_open_complaints'' = Inr (IntCol [Some 5, None, None, Some 0])"
  using numeric_coercion_rule[OF numerics_example_columns numerics_example_tokens, of read_decimal]
  by (simp add: is_digit_def nat_of_digits_examples read_decimal_examples str_rstrip_examples)

text \<open>
  The claim as it is written fails: a well-formed cell whose token does not fit
  \<^verbatim>\<open>Int64\<close> makes the stage raise.
\<close>

theorem huge_token_counterexample:
  "clean_and_convert_numerical read_decimal
     [(''customer_lifetime_value'', TextCol [Some ''50'']),
      (''number_of_open_complaints'', TextCol [Some ''1/99999999999999999999/00''])]
   = Inl TypeError"
  by (simp add: clean_and_convert_numerical_def str_accessor_def getitem_def columns_named_def
      setitem_def to_numeric_float_def to_numeric_Int64_def INT64_MAX_def is_digit_def
      nat_of_digits_def digit_val_def Let_def)

text \<open>
  C5 (amended). When stage 6 returns, \<^verbatim>\<open>customer_lifetime_value\<close> was a text column and
  is now the float column of the reader's results on the stripped cells; a null cell
  stays null. The strip removes every trailing \<^verbatim>\<open>%\<close>, and only at the end: a text is
  its stripped text followed by some number of \<^verbatim>\<open>%\<close>, and the stripped text does not
  end in \<^verbatim>\<open>%\<close>.
\<close>

theorem lifetime_value_strip_rule:
  assumes "clean_and_convert_numerical rd df = Inr df'"
  shows "(\<exists>xs. getitem df ''customer_lifetime_value'' = Inr (TextCol xs) \<and>
            getitem df' ''customer_lifetime_value'' =
              Inr (FloatCol (map (\<lambda>x. case x of None \<Rightarrow> None
                                        | Some s \<Rightarrow> rd (str_rstrip CHR ''%'' s)) xs))) \<and>
         (\<forall>s. \<exists>k. s = str_rstrip CHR ''%'' s @ replicate k CHR ''%'' \<and>
                 (str_rstrip CHR ''%'' s = [] \<or> last (str_rstrip CHR ''%'' s) \<noteq> CHR ''%''))"
  using clean_and_convert_numerical_columns[OF assms] str_rstrip_decompose[of _ "CHR ''%''"]
  by blast

theorem lifetime_value_strip_rule_witness:
  "getitem numerics_coerced ''customer_lifetime_value'' =
     Inr (FloatCol (map (\<lambda>x. case x of None \<Rightarrow> None
                               | Some s \<Rightarrow> read_decimal (str_rstrip CHR ''%'' s))
                     [Some ''897.23%'', Some ''50%%'', Some ''abc'', None])) \<and>
   (\<exists>k. ''50%%'' = str_rstrip CHR ''%'' ''50%%'' @ replicate k CHR ''%'')"
  using lifetime_value_strip_rule[OF clean_and_convert_numerical_example] numerics_example_columns(1)
  by (auto simp del: map_eq_conv)

text \<open>
  The claim as it is written fails: of a cell that ends in two \<^verbatim>\<open>%\<close> both are removed,
  and the cell is read as the number 50, not as null.
\<close>

theorem two_percent_signs_counterexample:
  "clean_and_convert_numerical read_decimal
     [(''customer_lifetime_value'', TextCol [Some ''50%%'']),
      (''number_of_open_complaints'', TextCol [Some ''1/5/00''])]
   = Inr [(''customer_lifetime_value'', FloatCol [Some 50]),
          (''number_of_open_complaints'', IntCol [Some 5])]"
  by (simp add: clean_and_convert_numerical_Inr_iff getitem_def columns_named_def setitem_def
      to_numeric_Int64_def INT64_MAX_def is_digit_def
      nat_of_digits_examples read_decimal_examples str_rstrip_examples str_extract_token_examples)

text \<open>
  C6. When the pipeline returns a table, the six stages before the filler have returned
  a table in which \<^verbatim>\<open>number_of_open_complaints\<close> is an integer column; the filler leaves
  that column as it is, and \<^verbatim>\<open>complaints_missing\<close> is a boolean column of the same
  length that is true at row \<open>i\<close> exactly when the integer column is null at row \<open>i\<close>.
\<close>

theorem complaints_flag_rule:
  assumes "main_cleaning_pipeline rd df = Inr df'"
  shows "\<exists>df1 df2 df3 df4 df5 df6 xs bs.
     clean_column_names df = Inr df1 \<and> standardize_gender df1 = Inr df2 \<and>
     standardize_state df2 = Inr df3 \<and> standardize_education df3 = Inr df4 \<and>
     standardize_vehicle_class df4 = Inr df5 \<and>
     clean_and_convert_numerical rd df5 = Inr df6 \<and> handle_missing_values df6 = Inr df' \<and>
     getitem df6 ''number_of_open_complaints'' = Inr (IntCol xs) \<and>
     getitem df' ''number_of_open_complaints'' = Inr (IntCol xs) \<and>
     getitem df' ''complaints_missing'' = Inr (BoolCol bs) \<and>
     length bs = length xs \<and> (\<forall>i<length xs. bs ! i \<longleftrightarrow> xs ! i = None)"
proof -
  from assms obtain df1 df2 df3 df4 df5 df6 where
    s: "clean_column_names df = Inr df1" "standardize_gender df1 = Inr df2"
       "standardize_state df2 = Inr df3" "standardize_education df3 = Inr df4"
       "standardize_vehicle_class df4 = Inr df5"
       "clean_and_convert_numerical rd df5 = Inr df6" "handle_missing_values df6 = Inr df'"
    unfolding main_cleaning_pipeline_Inr_iff by blast
  from clean_and_convert_numerical_columns[OF s(6)] obtain ts d' where
    g6: "to_numeric_Int64 (TextCol ts) = Inr d'"
      "getitem df6 ''number_of_open_complaints'' = Inr d'"
    by blast
  from to_numeric_Int64_IntCol[OF g6(1)] obtain xs where x: "d' = IntCol xs" by blast
  from handle_missing_values_flag[OF s(7)] g6(2) x
  have f: "getitem df' ''number_of_open_complaints'' = Inr (IntCol xs)"
    "getitem df' ''complaints_missing'' = Inr (BoolCol (map (\<lambda>x. x = None) xs))"
    by auto
  have "length (map (\<lambda>x. x = None) xs) = length xs \<and>
        (\<forall>i<length xs. map (\<lambda>x. x = None) xs ! i \<longleftrightarrow> xs ! i = None)"
    by simp
  with s g6(2) x f show ?thesis by blast
qed

theorem complaints_flag_rule_witness:
  "main_cleaning_pipeline read_decimal raw_example = Inr raw_cleaned \<and>
   getitem raw_cleaned ''number_of_open_complaints'' = Inr (IntCol [Some 0, None]) \<and>
   getitem raw_cleaned ''complaints_missing'' = Inr (BoolCol [False, True])"
proof -
  from complaints_flag_rule[OF raw_example_pipeline] obtain xs bs where
    x: "getitem raw_cleaned ''number_of_open_complaints'' = Inr (IntCol xs)" and
    b: "getitem raw_cleaned ''complaints_missing'' = Inr (BoolCol bs)" and
    l: "length bs = length xs" and
    r: "\<forall>i<length xs. bs ! i \<longleftrightarrow> xs ! i = None"
    by blast
  from x raw_cleaned_complaints have xs: "xs = [Some 0, None]" by simp
  with l have "length bs = 2" by simp
  then obtain b0 b1 where bs: "bs = [b0, b1]"
    by (metis (no_types) length_0_conv length_Suc_conv numeral_2_eq_2)
  from r[unfolded xs bs] have "\<not> b0" "b1"
    by (auto simp: nth_Cons' split: if_splits)
  with b bs raw_example_pipeline raw_cleaned_complaints show ?thesis by simp
qed




text \<open>
  C8. When the state column is a text column of ASCII cells the state stage returns, and
  the new state column has, for each non-null cell \<open>v\<close>, the entry of the map at the
  uppercase of \<open>v\<close> when that is a key and the uppercase of \<open>v\<close> otherwise; null cells
  stay null. The uppercase of a text has its length, with each letter \<open>a\<close> to \<open>z\<close>
  (the codes 97 to 122) replaced by the character 32 codes below it, its capital, and
  every other character kept. The map has 51 keys, all different: 50 keys of two letters
  and \<open>CALI\<close>, which is mapped to \<open>CALIFORNIA\<close>.
\<close>

theorem standardize_state_rule:
  assumes "getitem df ''state'' = Inr (TextCol xs)"
    and "\<forall>v. Some v \<in> set xs \<longrightarrow> is_ascii v"
  shows "(\<exists>df'. standardize_state df = Inr df' \<and>
            getitem df' ''state'' =
              Inr (TextCol (map (\<lambda>x. case x of
                                     None \<Rightarrow> None
                                   | Some v \<Rightarrow>
                                       (case map_of state_mapping (str_upper v) of
                                          Some full \<Rightarrow> Some full
                                        | None \<Rightarrow> Some (str_upper v))) xs))) \<and>
         (\<forall>v. length (str_upper v) = length v \<and>
              (\<forall>i<length v. (of_char (str_upper v ! i) :: nat) =
                 (if 97 \<le> (of_char (v ! i) :: nat) \<and> (of_char (v ! i) :: nat) \<le> 122
                  then of_char (v ! i) - 32 else of_char (v ! i)))) \<and>
         length state_mapping = 51 \<and> distinct (map fst state_mapping) \<and>
         map_of state_mapping ''CALI'' = Some ''CALIFORNIA'' \<and>
         length (filter (\<lambda>k. length k = 2) (map fst state_mapping)) = 50"
proof -
  have "state_cell = (\<lambda>x. case x of
                             None \<Rightarrow> None
                           | Some v \<Rightarrow>
                               (case map_of state_mapping (str_upper v) of
                                  Some full \<Rightarrow> Some full
                                | None \<Rightarrow> Some (str_upper v)))"
    by (auto simp: state_cell_def replace_cell_def fun_eq_iff split: option.splits)
  with map_text_column_total[OF assms(1), of state_cell]
  have "\<exists>df'. standardize_state df = Inr df' \<and>
            getitem df' ''state'' =
              Inr (TextCol (map (\<lambda>x. case x of
                                     None \<Rightarrow> None
                                   | Some v \<Rightarrow>
                                       (case map_of state_mapping (str_upper v) of
                                          Some full \<Rightarrow> Some full
                                        | None \<Rightarrow> Some (str_upper v))) xs))"
    by (simp add: standardize_state_eq)
  with str_upper_code state_mapping_facts show ?thesis by blast
qed

theorem standardize_state_rule_witness:
  "\<exists>df'. standardize_state states_example = Inr df' \<and>
      getitem df' ''state'' =
        Inr (TextCol [Some ''CALIFORNIA'', Some ''CALIFORNIA'', None, Some ''QUEBEC''])"
  using standardize_state_rule[OF states_example_state states_example_ascii, THEN conjunct1]
  by (simp add: str_upper_examples state_mapping_examples state_mapping_facts)

text \<open>
  C9 (amended). Stage 1 returns a table for every frame whose labels are text, and raises
  \<^verbatim>\<open>AttributeError\<close> on a frame whose column index is not text. Each of stages 2 to 7
  raises when a column it reads is not in the table: stages 2 to 5 raise
  \<^verbatim>\<open>KeyError\<close>, and so does stage 6 when the lifetime value is the column that is not
  there; stage 6 without the complaints column, stage 7 and the pipeline (when, after
  stage 1, one of the columns that the later stages read is not in the table) end in an
  exception of Python on every frame that the model follows to the end.
\<close>

theorem missing_column_raises:
  "(\<exists>df1. clean_column_names_frame (TextFrame df) = Inr df1) \<and>
   clean_column_names_frame (IntegerFrame cs) = Inl AttributeError \<and>
   (''gender'' \<notin> fst ` set df \<longrightarrow> standardize_gender df = Inl KeyError) \<and>
   (''state'' \<notin> fst ` set df \<longrightarrow> standardize_state df = Inl KeyError) \<and>
   (''education'' \<notin> fst ` set df \<longrightarrow> standardize_education df = Inl KeyError) \<and>
   (''vehicle_class'' \<notin> fst ` set df \<longrightarrow> standardize_vehicle_class df = Inl KeyError) \<and>
   (''customer_lifetime_value'' \<notin> fst ` set df \<longrightarrow>
      clean_and_convert_numerical rd df = Inl KeyError) \<and>
   (distinct (map fst df) \<and> ''number_of_open_complaints'' \<notin> fst ` set df \<longrightarrow>
      raises (clean_and_convert_numerical rd df)) \<and>
   (within_model df \<and>
    (\<exists>n \<in> insert ''number_of_open_complaints'' (set categorical_cols \<union> set numerical_cols).
        n \<notin> fst ` set df) \<longrightarrow> raises (handle_missing_values df)) \<and>
   (\<forall>df1. clean_column_names df = Inr df1 \<and> within_model df1 \<and>
      (\<exists>n \<in> insert ''number_of_open_complaints'' (set categorical_cols \<union> set numerical_cols).
          n \<notin> fst ` set df1) \<longrightarrow> raises (main_cleaning_pipeline rd df))"
proof (intro conjI impI allI)
  show "\<exists>df1. clean_column_names_frame (TextFrame df) = Inr df1"
    by (rule clean_column_names_frame_cases)
  show "clean_column_names_frame (IntegerFrame cs) = Inl AttributeError"
    by (rule clean_column_names_frame_cases)
  show "standardize_gender df = Inl KeyError" if "''gender'' \<notin> fst ` set df"
    using that by (simp add: standardize_gender_eq map_text_column_absent)
  show "standardize_state df = Inl KeyError" if "''state'' \<notin> fst ` set df"
    using that by (simp add: standardize_state_eq map_text_column_absent)
  show "standardize_education df = Inl KeyError" if "''education'' \<notin> fst ` set df"
    using that by (simp add: standardize_education_eq map_text_column_absent)
  show "standardize_vehicle_class df = Inl KeyError" if "''vehicle_class'' \<notin> fst ` set df"
    using that by (simp add: standardize_vehicle_class_eq map_text_column_absent)
  show "clean_and_convert_numerical rd df = Inl KeyError"
    if "''customer_lifetime_value'' \<notin> fst ` set df"
    using that by (rule clean_and_convert_numerical_KeyError)
  show "raises (clean_and_convert_numerical rd df)"
    if "distinct (map fst df) \<and> ''number_of_open_complaints'' \<notin> fst ` set df"
    using that clean_and_convert_numerical_raises by blast
  show "raises (handle_missing_values df)"
    if "within_model df \<and>
        (\<exists>n \<in> insert ''number_of_open_complaints'' (set categorical_cols \<union> set numerical_cols).
            n \<notin> fst ` set df)"
    using that handle_missing_values_raises by blast
  show "raises (main_cleaning_pipeline rd df)"
    if "clean_column_names df = Inr df1 \<and> within_model df1 \<and>
        (\<exists>n \<in> insert ''number_of_open_complaints'' (set categorical_cols \<union> set numerical_cols).
            n \<notin> fst ` set df1)" for df1
    using that main_cleaning_pipeline_raises by blast
qed

theorem missing_column_raises_witness:
  "(\<exists>df1. clean_column_names_frame (TextFrame unrelated_example) = Inr df1) \<and>
   clean_column_names_frame (IntegerFrame []) = Inl AttributeError \<and>
   standardize_gender unrelated_example = Inl KeyError \<and>
   standardize_state unrelated_example = Inl KeyError \<and>
   standardize_education unrelated_example = Inl KeyError \<and>
   standardize_vehicle_class unrelated_example = Inl KeyError \<and>
   clean_and_convert_numerical read_decimal unrelated_example = Inl KeyError \<and>
   raises (clean_and_convert_numerical read_decimal unrelated_example) \<and>
   raises (handle_missing_values unrelated_example) \<and>
   raises (main_cleaning_pipeline read_decimal unrelated_example)"
proof -
  note t = missing_column_raises[of unrelated_example "[]" read_decimal]
  have m: "''gender'' \<in> insert ''number_of_open_complaints'' (set categorical_cols \<union> set numerical_cols)"
    by (simp add: categorical_cols_def)
  have a: "\<exists>n \<in> insert ''number_of_open_complaints'' (set categorical_cols \<union> set numerical_cols).
        n \<notin> fst ` set unrelated_example"
    using m by (intro bexI[of _ "''gender''"]) (simp_all add: unrelated_example_labels)
  have b: "clean_column_names unrelated_example = Inr [(''policy_number'', IntCol [Some 1, Some 2])] \<and>
      within_model [(''policy_number'', IntCol [Some 1, Some 2])] \<and>
      (\<exists>n \<in> insert ''number_of_open_complaints'' (set categorical_cols \<union> set numerical_cols).
        n \<notin> fst ` set [(''policy_number'', IntCol [Some 1, Some 2])])"
    using m unrelated_example_labels(2) unrelated_example_within_model(3)
    by (intro conjI bexI[of _ "''gender''"]) simp_all
  have c: "''gender'' \<notin> fst ` set unrelated_example" "''state'' \<notin> fst ` set unrelated_example"
    "''education'' \<notin> fst ` set unrelated_example" "''vehicle_class'' \<notin> fst ` set unrelated_example"
    "''customer_lifetime_value'' \<notin> fst ` set unrelated_example"
    "''number_of_open_complaints'' \<notin> fst ` set unrelated_example"
    by (simp_all add: unrelated_example_labels)
  from t a b c unrelated_example_within_model(1,2) show ?thesis by blast
qed

text \<open>
  The claim as it is written fails: stage 1 raises on \<^verbatim>\<open>pd.DataFrame()\<close>, whose column
  index is a \<^verbatim>\<open>RangeIndex\<close>, and on a frame with the integer labels 0 and 1.
\<close>

theorem stage1_not_text_counterexample:
  "clean_column_names_frame (IntegerFrame []) = Inl AttributeError \<and>
   clean_column_names_frame
     (IntegerFrame [(0, TextCol [Some ''F'', Some ''M'']), (1, FloatCol [Some 1, None])])
     = Inl AttributeError"
  by (simp add: clean_column_names_frame_def)

text \<open>
  C10. Each of the four single-column stages (gender, state, education, vehicle class),
  when it returns, keeps the labels and the number of columns, leaves every column under
  another label exactly as it was, and keeps the number of cells of every column.
\<close>

theorem single_column_stage_frame:
  assumes "stage = standardize_gender \<and> n = ''gender'' \<or>
           stage = standardize_state \<and> n = ''state'' \<or>
           stage = standardize_education \<and> n = ''education'' \<or>
           stage = standardize_vehicle_class \<and> n = ''vehicle_class''"
    and "stage df = Inr df'"
  shows "map fst df' = map fst df \<and> length df' = length df \<and>
         (\<forall>i<length df. fst (df ! i) \<noteq> n \<longrightarrow> df' ! i = df ! i) \<and>
         (\<forall>i<length df. col_length (snd (df' ! i)) = col_length (snd (df ! i)))"
proof -
  from assms obtain f where "map_text_column n f df = Inr df'"
    by (auto simp: standardize_gender_eq standardize_state_eq standardize_education_eq
        standardize_vehicle_class_eq)
  then show ?thesis by (rule map_text_column_frame)
qed

theorem single_column_stage_frame_witness:
  "standardize_gender genders_example = Inr genders_cleaned \<and>
   map fst genders_cleaned = map fst genders_example \<and>
   length genders_cleaned = length genders_example \<and>
   genders_cleaned ! 1 = genders_example ! 1 \<and>
   col_length (snd (genders_cleaned ! 0)) = col_length (snd (genders_example ! 0))"
proof -
  have e: "standardize_gender genders_example = Inr genders_cleaned"
    by (rule standardize_gender_example)
  have t: "map fst genders_cleaned = map fst genders_example \<and>
      length genders_cleaned = length genders_example \<and>
      (\<forall>i<length genders_example.
          fst (genders_example ! i) \<noteq> ''gender'' \<longrightarrow> genders_cleaned ! i = genders_example ! i) \<and>
      (\<forall>i<length genders_example.
          col_length (snd (genders_cleaned ! i)) = col_length (snd (genders_example ! i)))"
    by (rule single_column_stage_frame[of standardize_gender "''gender''", OF _ e]) simp
  have a: "1 < length genders_example" "fst (genders_example ! 1) \<noteq> ''gender''"
    "0 < length genders_example"
    by (simp_all add: genders_example_def)
  from t a e show ?thesis by blast
qed

end
